theory Spec2Isabelle
  imports Complex_Main
begin

section \<open>JavaScript values\<close>

text \<open>
  The values the program handles are decoded JSON values and \<^verbatim>\<open>undefined\<close>.
  An object is the list of its own properties in insertion order; a property read
  takes the first entry of that name. Numbers are only carried and compared by the
  code under study, never computed with, so their carrier is \<open>real\<close>.
\<close>

datatype js =
    JUndefined
  | JNull
  | JBool bool
  | JNumber real
  | JString string
  | JArray "js list"
  | JObject "(string \<times> js) list"

text \<open>
  \<^verbatim>\<open>typeof v\<close>. The program only compares the outcome with \<^verbatim>\<open>"number"\<close>,
  \<^verbatim>\<open>"string"\<close> and \<^verbatim>\<open>"undefined"\<close>.
\<close>

fun typeof :: "js \<Rightarrow> string" where
  "typeof JUndefined = ''undefined''"
| "typeof JNull = ''object''"
| "typeof (JBool b) = ''boolean''"
| "typeof (JNumber n) = ''number''"
| "typeof (JString s) = ''string''"
| "typeof (JArray xs) = ''object''"
| "typeof (JObject kvs) = ''object''"

text \<open>
  \<^verbatim>\<open>v?.k\<close>, and \<^verbatim>\<open>v.k\<close> where \<^verbatim>\<open>v\<close> is neither \<^verbatim>\<open>null\<close> nor
  \<^verbatim>\<open>undefined\<close>. The names the program reads (\<^verbatim>\<open>jsonrpc\<close>, \<^verbatim>\<open>id\<close>,
  \<^verbatim>\<open>method\<close>, \<^verbatim>\<open>result\<close>, \<^verbatim>\<open>error\<close>, \<^verbatim>\<open>code\<close>, \<^verbatim>\<open>message\<close>,
  \<^verbatim>\<open>data\<close>) are no built-in property of any prototype, so reading one of them from
  a primitive or an array gives \<^verbatim>\<open>undefined\<close>.
\<close>

fun get :: "js \<Rightarrow> string \<Rightarrow> js" where
  "get (JObject kvs) k = (case map_of kvs k of None \<Rightarrow> JUndefined | Some v \<Rightarrow> v)"
| "get v k = JUndefined"

text \<open>\<^verbatim>\<open>k in v\<close> for an object \<^verbatim>\<open>v\<close> (on a primitive the operator raises).\<close>

fun has_key :: "string \<Rightarrow> js \<Rightarrow> bool" where
  "has_key k (JObject kvs) = (k \<in> fst ` set kvs)"
| "has_key k v = False"

text \<open>Truthiness, as tested by \<^verbatim>\<open>if (v)\<close> and \<^verbatim>\<open>v ? a : b\<close>.\<close>

fun truthy :: "js \<Rightarrow> bool" where
  "truthy JUndefined = False"
| "truthy JNull = False"
| "truthy (JBool b) = b"
| "truthy (JNumber n) = (n \<noteq> 0)"
| "truthy (JString s) = (s \<noteq> [])"
| "truthy (JArray xs) = True"
| "truthy (JObject kvs) = True"

section \<open>Errors and promises\<close>

text \<open>
  Modelled from the spec: the class \<^verbatim>\<open>BadServerDataError\<close> of \<^verbatim>\<open>error.ts\<close>, the
  structured error \<^verbatim>\<open>{ id, message, code, data? }\<close>. Its constructor takes
  \<^verbatim>\<open>(id, message, code, data)\<close> in this order, as the calls in the source show; an
  omitted \<^verbatim>\<open>data\<close> is \<^verbatim>\<open>undefined\<close>. Every other exception of the platform
  (\<^verbatim>\<open>TypeError\<close>, \<^verbatim>\<open>SyntaxError\<close>) is a \<open>NativeError\<close> with its message.
\<close>

datatype exn =
    BadServerDataError (err_id: js) (err_message: js) (err_code: js) (err_data: js)
  | NativeError string

fun message :: "exn \<Rightarrow> js" where
  "message (BadServerDataError i m c d) = m"
| "message (NativeError m) = JString m"

text \<open>
  A settled promise is its outcome: \<open>Inl e\<close> rejected with \<open>e\<close>, \<open>Inr v\<close> fulfilled
  with \<open>v\<close>. A function that throws has the same result type.
\<close>

type_synonym 'a promise = "exn + 'a"

definition then_promise :: "'a promise \<Rightarrow> ('a \<Rightarrow> 'b promise) \<Rightarrow> 'b promise" where
  "then_promise p f = (case p of Inl e \<Rightarrow> Inl e | Inr v \<Rightarrow> f v)"

definition catch_promise :: "'a promise \<Rightarrow> (exn \<Rightarrow> 'a promise) \<Rightarrow> 'a promise" where
  "catch_promise p h = (case p of Inl e \<Rightarrow> h e | Inr v \<Rightarrow> Inr v)"

section \<open>Response validation (client)\<close>

definition validateRpcNotification :: "js \<Rightarrow> bool" where
  "validateRpcNotification data \<longleftrightarrow>
     get data ''jsonrpc'' = JString ''2.0'' \<and>
     typeof (get data ''method'') = ''string'' \<and>
     typeof (get data ''id'') = ''undefined''"

definition validateRpcBasis :: "js \<Rightarrow> bool" where
  "validateRpcBasis data \<longleftrightarrow>
     get data ''jsonrpc'' = JString ''2.0'' \<and>
     (typeof (get data ''id'') = ''number'' \<or>
      typeof (get data ''id'') = ''string'' \<or>
      get data ''id'' = JNull)"

definition validateRpcSuccess :: "js \<Rightarrow> bool" where
  "validateRpcSuccess data \<longleftrightarrow> has_key ''result'' data"

definition validateRpcFailure :: "js \<Rightarrow> bool" where
  "validateRpcFailure data \<longleftrightarrow>
     typeof (get (get data ''error'') ''code'') = ''number'' \<and>
     typeof (get (get data ''error'') ''message'') = ''string''"

definition validateResponse :: "js \<Rightarrow> exn + js" where
  "validateResponse data =
     (if validateRpcBasis data then
        (if validateRpcSuccess data then Inr data
         else if validateRpcFailure data then
           Inl (BadServerDataError
                  (get data ''id'')
                  (get (get data ''error'') ''message'')
                  (get (get data ''error'') ''code'')
                  (get (get data ''error'') ''data''))
         else
           Inl (BadServerDataError JNull
                  (JString ''Received data is no RPC response object.'')
                  (JNumber (- 32003)) JUndefined))
      else
        Inl (BadServerDataError JNull
               (JString ''Received data is no RPC response object.'')
               (JNumber (- 32003)) JUndefined))"

text \<open>
  What every caller of \<^verbatim>\<open>validateResponse\<close> does with a response:
  \<^verbatim>\<open>validateResponse(rpcResponse).result\<close>.
\<close>

definition validated_result :: "js \<Rightarrow> exn + js" where
  "validated_result rpcResponse =
     (case validateResponse rpcResponse of Inl e \<Rightarrow> Inl e | Inr d \<Rightarrow> Inr (get d ''result''))"

section \<open>The request/response transport\<close>

text \<open>
  The platform's \<^verbatim>\<open>Headers\<close> class: a header list, names kept in lower case. A
  \<^verbatim>\<open>Headers\<close> object is mutable and shared by reference, so the objects live in a
  store and a reference is an index into it. \<^verbatim>\<open>entries()\<close> of the platform yields
  the list sorted by name with the values of a repeated name joined; the model hands
  out the list as stored, which denotes the same set of header lines.

  Names and values are checked as the Fetch standard says: a value is normalised
  (leading and trailing HTTP whitespace is removed), a name must be a token and a
  normalised value must hold no NUL, LF or CR; otherwise the constructor,
  \<^verbatim>\<open>append\<close> and \<^verbatim>\<open>set\<close> raise a \<^verbatim>\<open>TypeError\<close>. Strings are lists of bytes, so
  a JavaScript string with a code unit above 255, which the platform rejects as a
  header value, has no counterpart here.
\<close>

type_synonym headers = "(string \<times> string) list"

definition lower_char :: "char \<Rightarrow> char" where
  "lower_char c =
     (if (65::nat) \<le> of_char c \<and> (of_char c :: nat) \<le> 90
      then char_of (of_char c + (32::nat)) else c)"

definition lowercase :: "string \<Rightarrow> string" where
  "lowercase s = map lower_char s"

definition http_whitespace :: "char \<Rightarrow> bool" where
  "http_whitespace c \<longleftrightarrow> c = CHR 0x09 \<or> c = CHR 0x0A \<or> c = CHR 0x0D \<or> c = CHR 0x20"

definition normalize_value :: "string \<Rightarrow> string" where
  "normalize_value v = rev (dropWhile http_whitespace (rev (dropWhile http_whitespace v)))"

definition header_value :: "string \<Rightarrow> bool" where
  "header_value v \<longleftrightarrow> \<not> list_ex (\<lambda>c. c = CHR 0x00 \<or> c = CHR 0x0A \<or> c = CHR 0x0D) v"

definition tchar :: "char \<Rightarrow> bool" where
  "tchar c \<longleftrightarrow>
     ((48::nat) \<le> of_char c \<and> (of_char c :: nat) \<le> 57) \<or>
     ((65::nat) \<le> of_char c \<and> (of_char c :: nat) \<le> 90) \<or>
     ((97::nat) \<le> of_char c \<and> (of_char c :: nat) \<le> 122) \<or>
     c \<in> set (''!#$%&*+-.^_|~'' @ [CHR 0x27, CHR 0x60])"

definition header_name :: "string \<Rightarrow> bool" where
  "header_name n \<longleftrightarrow> n \<noteq> [] \<and> list_all tchar n"

definition headers_append :: "headers \<Rightarrow> string \<times> string \<Rightarrow> exn + headers" where
  "headers_append h nv =
     (if header_name (fst nv) \<and> header_value (normalize_value (snd nv))
      then Inr (h @ [(lowercase (fst nv), normalize_value (snd nv))])
      else Inl (NativeError ''Invalid header name or value''))"

fun fill_headers :: "headers \<Rightarrow> (string \<times> string) list \<Rightarrow> exn + headers" where
  "fill_headers h [] = Inr h"
| "fill_headers h (nv # init) =
     (case headers_append h nv of Inl e \<Rightarrow> Inl e | Inr h' \<Rightarrow> fill_headers h' init)"

definition new_Headers :: "(string \<times> string) list \<Rightarrow> exn + headers" where
  "new_Headers init = fill_headers [] init"

fun set_first :: "string \<Rightarrow> string \<Rightarrow> headers \<Rightarrow> headers" where
  "set_first n v [] = []"
| "set_first n v ((k, x) # h) =
     (if k = n then (k, v) # filter (\<lambda>kx. fst kx \<noteq> n) h else (k, x) # set_first n v h)"

definition headers_set :: "headers \<Rightarrow> string \<Rightarrow> string \<Rightarrow> exn + headers" where
  "headers_set h n v =
     (if header_name n \<and> header_value (normalize_value v) then
        Inr (if lowercase n \<in> fst ` set h
             then set_first (lowercase n) (normalize_value v) h
             else h @ [(lowercase n, normalize_value v)])
      else Inl (NativeError ''Invalid header name or value''))"

text \<open>What holds of every entry of a \<^verbatim>\<open>Headers\<close> object.\<close>

definition legal_header :: "string \<times> string \<Rightarrow> bool" where
  "legal_header kv \<longleftrightarrow>
     header_name (fst kv) \<and> lowercase (fst kv) = fst kv \<and>
     normalize_value (snd kv) = snd kv \<and> header_value (snd kv)"

definition headers_entries :: "headers \<Rightarrow> (string \<times> string) list" where
  "headers_entries h = h"

definition headers_has :: "headers \<Rightarrow> string \<Rightarrow> bool" where
  "headers_has h n \<longleftrightarrow> lowercase n \<in> fst ` set h"

text \<open>
  The state the client code runs in: the store of \<^verbatim>\<open>Headers\<close> objects and the log
  of the requests handed to \<^verbatim>\<open>fetch\<close>, each with the header list its
  \<^verbatim>\<open>Headers\<close> object held at that moment.
\<close>

datatype resource = ResourceString string | ResourceURL (href: string) | ResourceRequest string

record request =
  req_resource :: resource
  req_method :: string
  req_headers :: headers
  req_body :: "string option"

record response =
  status :: nat
  statusText :: string
  content_length :: "string option"
  json :: "js promise"

text \<open>\<^verbatim>\<open>res.ok\<close>: the status is in the range 200-299.\<close>

definition ok :: "response \<Rightarrow> bool" where
  "ok res \<longleftrightarrow> 200 \<le> status res \<and> status res \<le> 299"

record net =
  heap :: "headers list"
  sent :: "request list"

definition deref :: "net \<Rightarrow> nat \<Rightarrow> headers" where
  "deref w a = (if a < length (heap w) then heap w ! a else [])"

definition alloc :: "headers \<Rightarrow> net \<Rightarrow> nat \<times> net" where
  "alloc h w = (length (heap w), w\<lparr>heap := heap w @ [h]\<rparr>)"

text \<open>
  \<^verbatim>\<open>RequestInit\<close> as the client uses it: the method, a reference to a
  \<^verbatim>\<open>Headers\<close> object and the body. The other options the caller passed to the
  constructor are carried along unread and are left out.
\<close>

record fetchInit =
  init_method :: string
  init_headers :: nat
  init_body :: "string option"

text \<open>
  What the client code takes from outside: the peer behind \<^verbatim>\<open>fetch\<close> (the
  outcome of the exchange for each request), \<^verbatim>\<open>JSON.stringify\<close>, the conversion
  of a number to a string, and the two request builders of \<^verbatim>\<open>creation.ts\<close>, which
  is not among the sources.
\<close>

datatype batch_input = BatchArrayInput "js list" | BatchObjectInput "(string \<times> js) list"

record client_env =
  server :: "request \<Rightarrow> response promise"
  stringify :: "js \<Rightarrow> string"
  number_to_string :: "real \<Rightarrow> string"
  createRequest :: "string \<Rightarrow> js \<Rightarrow> bool option \<Rightarrow> js"
  createRequestBatch :: "batch_input \<Rightarrow> bool option \<Rightarrow> js"

definition fetch :: "client_env \<Rightarrow> resource \<Rightarrow> fetchInit \<Rightarrow> net \<Rightarrow> response promise \<times> net" where
  "fetch E resource init w =
     (let req = \<lparr>req_resource = resource, req_method = init_method init,
                  req_headers = deref w (init_headers init), req_body = init_body init\<rparr>
      in (server E req, w\<lparr>sent := sent w @ [req]\<rparr>))"

text \<open>Decimal digits of a number, for \<^verbatim>\<open>${res.status}\<close>.\<close>

fun show_nat :: "nat \<Rightarrow> string" where
  "show_nat n =
     (if n < 10 then [char_of (48 + n)]
      else show_nat (n div 10) @ [char_of (48 + n mod 10)])"

declare show_nat.simps [simp del]

section \<open>The client (\<^verbatim>\<open>client/http.ts\<close>)\<close>

definition send :: "client_env \<Rightarrow> resource \<Rightarrow> fetchInit \<Rightarrow> net \<Rightarrow> js promise \<times> net" where
  "send E resource init w =
     (let (p, w') = fetch E (case resource of ResourceURL h \<Rightarrow> ResourceString h | r \<Rightarrow> r) init w
      in (catch_promise
            (then_promise p (\<lambda>res.
               if \<not> ok res then
                 Inl (BadServerDataError JNull
                        (JString (show_nat (status res) @ '' '' @ [CHR 0x27] @ statusText res
                                  @ [CHR 0x27] @ '' received instead of 200-299 range.''))
                        (JNumber (- 32002)) JUndefined)
               else if status res = 204 \<or> content_length res = Some ''0'' then Inr JUndefined
               else json res))
            (\<lambda>err. Inl (BadServerDataError JNull (message err) (JNumber (- 32001)) JUndefined)),
          w'))"

fun processBatchArray :: "js list \<Rightarrow> exn + js list" where
  "processBatchArray [] = Inr []"
| "processBatchArray (rpcResponse # rest) =
     (case validated_result rpcResponse of
        Inl e \<Rightarrow> Inl e
      | Inr v \<Rightarrow> (case processBatchArray rest of Inl e \<Rightarrow> Inl e | Inr vs \<Rightarrow> Inr (v # vs)))"

text \<open>
  \<^verbatim>\<open>ToString\<close> of a value, which turns \<^verbatim>\<open>rpcResponse.id\<close> into a property
  key.
\<close>

fun intercalate :: "string \<Rightarrow> string list \<Rightarrow> string" where
  "intercalate sep [] = []"
| "intercalate sep [x] = x"
| "intercalate sep (x # y # ys) = x @ sep @ intercalate sep (y # ys)"

fun to_string :: "(real \<Rightarrow> string) \<Rightarrow> js \<Rightarrow> string" where
  "to_string ns JUndefined = ''undefined''"
| "to_string ns JNull = ''null''"
| "to_string ns (JBool b) = (if b then ''true'' else ''false'')"
| "to_string ns (JNumber n) = ns n"
| "to_string ns (JString s) = s"
| "to_string ns (JObject kvs) = ''[object Object]''"
| "to_string ns (JArray xs) =
     intercalate '','' (map (\<lambda>x. if x = JNull \<or> x = JUndefined then [] else to_string ns x) xs)"

text \<open>
  \<^verbatim>\<open>v.k\<close> without a guard: reading a property of \<^verbatim>\<open>null\<close> or
  \<^verbatim>\<open>undefined\<close> raises a \<^verbatim>\<open>TypeError\<close>.
\<close>

definition read_property :: "js \<Rightarrow> string \<Rightarrow> exn + js" where
  "read_property v k =
     (if v = JNull then Inl (NativeError ''Cannot read properties of null'')
      else if v = JUndefined then Inl (NativeError ''Cannot read properties of undefined'')
      else Inr (get v k))"

text \<open>
  The \<^verbatim>\<open>reduce\<close> of \<^verbatim>\<open>processBatchObject\<close>, the accumulator first. In
  \<^verbatim>\<open>acc[rpcResponse.id] = validateResponse(rpcResponse).result\<close> the property
  \<^verbatim>\<open>rpcResponse.id\<close> is read before the right-hand side is evaluated. The
  accumulator is a record keyed by strings, here the map of its own properties; the
  inherited accessor \<^verbatim>\<open>__proto__\<close> is not modelled.
\<close>

fun processBatchObject_reduce ::
  "(real \<Rightarrow> string) \<Rightarrow> (string \<rightharpoonup> js) \<Rightarrow> js list \<Rightarrow> exn + (string \<rightharpoonup> js)" where
  "processBatchObject_reduce ns acc [] = Inr acc"
| "processBatchObject_reduce ns acc (rpcResponse # rest) =
     (case read_property rpcResponse ''id'' of
        Inl e \<Rightarrow> Inl e
      | Inr i \<Rightarrow>
          (case validated_result rpcResponse of
             Inl e \<Rightarrow> Inl e
           | Inr v \<Rightarrow> processBatchObject_reduce ns (acc(to_string ns i \<mapsto> v)) rest))"

definition processBatchObject :: "(real \<Rightarrow> string) \<Rightarrow> js list \<Rightarrow> exn + (string \<rightharpoonup> js)" where
  "processBatchObject ns rpcResponseBatch = processBatchObject_reduce ns Map.empty rpcResponseBatch"

record client =
  resource :: resource
  fetchInit :: fetchInit

text \<open>
  The constructor. \<^verbatim>\<open>options.headers\<close> is absent, a \<^verbatim>\<open>Headers\<close> object (then
  the client keeps that very object) or a list of pairs. It raises what
  \<^verbatim>\<open>new Headers\<close> raises.
\<close>

datatype headers_option = NoHeaders | HeadersObject nat | HeadersInit "(string \<times> string) list"

definition new_Client :: "resource \<Rightarrow> headers_option \<Rightarrow> net \<Rightarrow> exn + client \<times> net" where
  "new_Client res opt w =
     (case (case opt of
              NoHeaders \<Rightarrow> map_sum id (\<lambda>h. alloc h w) (new_Headers [])
            | HeadersObject r \<Rightarrow> Inr (r, w)
            | HeadersInit kvs \<Rightarrow> map_sum id (\<lambda>h. alloc h w) (new_Headers kvs)) of
        Inl e \<Rightarrow> Inl e
      | Inr (a, w1) \<Rightarrow>
          (case headers_set (deref w1 a) ''Content-Type'' ''application/json'' of
             Inl e \<Rightarrow> Inl e
           | Inr h \<Rightarrow>
               Inr (\<lparr>resource = res,
                     fetchInit = \<lparr>init_method = ''POST'', init_headers = a, init_body = None\<rparr>\<rparr>,
                    w1\<lparr>heap := (heap w1)[a := h]\<rparr>)))"

datatype batch_output =
    BatchUndefined
  | BatchArrayOutput "js list"
  | BatchObjectOutput "string \<rightharpoonup> js"

definition batch ::
  "client_env \<Rightarrow> client \<Rightarrow> batch_input \<Rightarrow> bool option \<Rightarrow> net \<Rightarrow> batch_output promise \<times> net" where
  "batch E this batchObj isNotification w =
     (let (p, w') = send E (resource this)
                      ((fetchInit this)\<lparr>init_body :=
                          Some (stringify E (createRequestBatch E batchObj isNotification))\<rparr>) w
      in (then_promise p (\<lambda>rpcResponseBatch.
            if rpcResponseBatch = JUndefined \<and> isNotification = Some True then Inr BatchUndefined
            else (case rpcResponseBatch of
                    JArray rs \<Rightarrow>
                      (if length rs > 0 then
                         (case batchObj of
                            BatchArrayInput xs \<Rightarrow> map_sum id BatchArrayOutput (processBatchArray rs)
                          | BatchObjectInput kvs \<Rightarrow>
                              map_sum id BatchObjectOutput (processBatchObject (number_to_string E) rs))
                       else Inl (BadServerDataError JNull
                                   (JString ''The server returned an invalid batch response.'')
                                   (JNumber (- 32004)) JUndefined))
                  | r \<Rightarrow> Inl (BadServerDataError JNull
                             (JString ''The server returned an invalid batch response.'')
                             (JNumber (- 32004)) JUndefined))),
          w'))"

record call_options =
  isNotification :: "bool option"
  jwt :: "string option"

text \<open>
  \<^verbatim>\<open>call\<close> builds the argument of \<^verbatim>\<open>send\<close> first. \<^verbatim>\<open>new Headers\<close> may raise
  there, and then \<^verbatim>\<open>call\<close> raises (\<open>Inl\<close>) and nothing is sent; otherwise it returns
  a promise (\<open>Inr\<close>).
\<close>

definition call ::
  "client_env \<Rightarrow> client \<Rightarrow> string \<Rightarrow> js \<Rightarrow> call_options \<Rightarrow> net \<Rightarrow> (exn + js promise) \<times> net" where
  "call E this method params opts w =
     (let rpcRequestObj = createRequest E method params (isNotification opts) in
      case (case jwt opts of
              None \<Rightarrow> Inr (init_headers (fetchInit this), w)
            | Some j \<Rightarrow>
                (if j \<noteq> [] then
                   map_sum id (\<lambda>h. alloc h w)
                     (new_Headers (headers_entries (deref w (init_headers (fetchInit this)))
                                   @ [(''Authorization'', ''Bearer '' @ j)]))
                 else Inr (init_headers (fetchInit this), w))) of
        Inl e \<Rightarrow> (Inl e, w)
      | Inr (hdrs, w1) \<Rightarrow>
          (let (p, w') = send E (resource this)
                           ((fetchInit this)\<lparr>init_headers := hdrs,
                                               init_body := Some (stringify E rpcRequestObj)\<rparr>) w1
           in (Inr (then_promise p (\<lambda>rpcResponse.
                      if rpcResponse = JUndefined \<and> isNotification opts = Some True
                      then Inr JUndefined
                      else validated_result rpcResponse)),
               w')))"

section \<open>The persistent channel and the emission bus\<close>

text \<open>
  \<^verbatim>\<open>MethodsAndIdsStore = Map<string, Set<string>>\<close>: a set is the list of its
  members in insertion order, as \<^verbatim>\<open>values()\<close> enumerates them.
\<close>

type_synonym store = "string \<rightharpoonup> string list"

record options =
  disableInternalMethods :: bool

text \<open>
  The platform's socket, as far as the handler uses it: \<^verbatim>\<open>isClosed\<close>,
  \<^verbatim>\<open>send\<close> and \<^verbatim>\<open>close\<close>. Whether a call of \<^verbatim>\<open>send\<close> raises is the
  peer's and the network's doing: \<open>send_raises s n\<close> tells it for the call number
  \<open>n\<close>, \<open>close_raises s\<close> for \<^verbatim>\<open>close\<close>. The socket logs every frame handed to
  \<^verbatim>\<open>send\<close>, with whether the call returned, and every status code handed to
  \<^verbatim>\<open>close\<close>.
\<close>

record socket =
  isClosed :: bool
  writes :: "(string \<times> bool) list"
  closes :: "nat list"
  send_raises :: "nat \<Rightarrow> bool"
  close_raises :: bool

definition socket_send :: "string \<Rightarrow> socket \<Rightarrow> unit promise \<times> socket" where
  "socket_send frame s =
     (let bad = send_raises s (length (writes s))
      in (if bad then Inl (NativeError ''send failed'') else Inr (),
          s\<lparr>writes := writes s @ [(frame, \<not> bad)]\<rparr>))"

definition socket_close :: "nat \<Rightarrow> socket \<Rightarrow> unit promise \<times> socket" where
  "socket_close code s =
     (if close_raises s then Inl (NativeError ''close failed'') else Inr (),
      s\<lparr>isClosed := True, closes := closes s @ [code]\<rparr>)"

text \<open>What the asynchronous iterator of the socket yields, and how a read of it ends.\<close>

datatype ws_event = Text string | Binary | Ping string | Pong string | Close nat string

datatype read = Event ws_event | Fail exn | Done

text \<open>
  The argument of \<^verbatim>\<open>handleWs\<close> (the type \<^verbatim>\<open>Input\<close>), and with it the point the
  handler of this channel has reached: not yet called, in its loop, or returned.
\<close>

datatype phase = Idle | Running | Exited

record 'm channel =
  socket :: socket
  methods :: 'm
  options :: options
  methodsAndIdsStore :: store
  phase :: phase

text \<open>
  The process-wide event target, for the event name \<^verbatim>\<open>"emit"\<close>: the listeners in
  registration order. \<^verbatim>\<open>handleWs\<close> creates one listener per channel, so a listener
  is named by its channel. \<^verbatim>\<open>addEventListener\<close> ignores a listener that is already
  registered, so a listener occurs at most once and \<^verbatim>\<open>removeEventListener\<close>
  leaves none of it.
\<close>

record 'm world =
  bus :: "nat list"
  chans :: "nat \<Rightarrow> 'm channel"

definition addEventListener :: "nat list \<Rightarrow> nat \<Rightarrow> nat list" where
  "addEventListener listeners h = (if h \<in> set listeners then listeners else listeners @ [h])"

definition removeEventListener :: "nat list \<Rightarrow> nat \<Rightarrow> nat list" where
  "removeEventListener listeners h = removeAll h listeners"

text \<open>
  What \<^verbatim>\<open>ws.ts\<close> imports from \<^verbatim>\<open>validation.ts\<close> and \<^verbatim>\<open>creation.ts\<close> of the
  server, which are not among the sources, is taken as given: \<^verbatim>\<open>validateRequest\<close>
  yields one validation object or a batch of them, \<^verbatim>\<open>createResponseObject\<close> yields
  the response (\<^verbatim>\<open>null\<close> or \<^verbatim>\<open>undefined\<close> for none). The registered methods
  run inside \<^verbatim>\<open>createResponseObject\<close> and may change the subscription table of
  the channel, so the table goes in and comes out; they are taken to change nothing
  else of the channel or of the bus. All three functions are taken to return.
\<close>

datatype 'v request_or_batch = Single 'v | Batch "'v list"

record ('v, 'm) server_env =
  validateRequest :: "string \<Rightarrow> 'm \<Rightarrow> 'v request_or_batch"
  validateRpcRequestObject :: "js \<Rightarrow> 'm \<Rightarrow> 'v"
  createResponseObject :: "'v \<Rightarrow> 'm \<Rightarrow> options \<Rightarrow> store \<Rightarrow> js \<times> store"
  JSON_stringify :: "js \<Rightarrow> string"

text \<open>
  Modelled from the spec: \<^verbatim>\<open>cleanBatch\<close> of \<^verbatim>\<open>creation.ts\<close>, the batch
  coordinator: given the per-item outcomes in order, it filters out the empty ones and
  returns the rest as an ordered sequence if there is any, and nothing otherwise.
\<close>

definition cleanBatch :: "js list \<Rightarrow> js" where
  "cleanBatch outcomes =
     (let batchResponse = filter (\<lambda>obj. obj \<noteq> JNull \<and> obj \<noteq> JUndefined) outcomes
      in if batchResponse \<noteq> [] then JArray batchResponse else JNull)"

section \<open>The channel handler (\<^verbatim>\<open>server/ws.ts\<close>)\<close>

text \<open>
  Asynchronous callbacks started together (\<^verbatim>\<open>ids.map(async ...)\<close>, the
  \<^verbatim>\<open>map\<close> over a batch) are run to their end one after the other, in the order
  of the array. \<^verbatim>\<open>console.log\<close> and \<^verbatim>\<open>console.error\<close> are left out.
\<close>

text \<open>The object \<^verbatim>\<open>{ method, params, id, jsonrpc: "2.0" }\<close> of \<^verbatim>\<open>emitListener\<close>.\<close>

definition emission_request :: "string \<Rightarrow> js \<Rightarrow> string \<Rightarrow> js" where
  "emission_request method params i =
     JObject [(''method'', JString method), (''params'', params), (''id'', JString i),
              (''jsonrpc'', JString ''2.0'')]"

text \<open>The callback of \<^verbatim>\<open>ids.map\<close> in \<^verbatim>\<open>emitListener\<close>, for one id.\<close>

definition emit_to_id ::
  "('v, 'm) server_env \<Rightarrow> nat \<Rightarrow> string \<Rightarrow> js \<Rightarrow> string \<Rightarrow> 'm world \<Rightarrow> unit promise \<times> 'm world" where
  "emit_to_id E h method params i w =
     (let c = chans w h;
          (response, st) =
            createResponseObject E
              (validateRpcRequestObject E (emission_request method params i) (methods c))
              (methods c) (options c) (methodsAndIdsStore c);
          c1 = c\<lparr>methodsAndIdsStore := st\<rparr>
      in if truthy response then
           (case socket_send (JSON_stringify E response) (socket c1) of
              (Inr u, s) \<Rightarrow> (Inr (), w\<lparr>chans := (chans w)(h := c1\<lparr>socket := s\<rparr>)\<rparr>)
            | (Inl e, s) \<Rightarrow>
                (Inr (), w\<lparr>bus := removeEventListener (bus w) h,
                           chans := (chans w)(h := c1\<lparr>socket := s\<rparr>)\<rparr>))
         else (Inr (), w\<lparr>chans := (chans w)(h := c1)\<rparr>))"

fun emit_ids ::
  "('v, 'm) server_env \<Rightarrow> nat \<Rightarrow> string \<Rightarrow> js \<Rightarrow> string list \<Rightarrow> 'm world
     \<Rightarrow> unit promise list \<times> 'm world" where
  "emit_ids E h method params [] w = ([], w)"
| "emit_ids E h method params (i # ids) w =
     (let (r, w1) = emit_to_id E h method params i w;
          (rs, w2) = emit_ids E h method params ids w1
      in (r # rs, w2))"

text \<open>
  \<^verbatim>\<open>emitListener\<close> of the channel \<open>h\<close>, on an event with the detail
  \<^verbatim>\<open>{ method, params }\<close>. It returns the promises of its callbacks.
\<close>

definition emitListener ::
  "('v, 'm) server_env \<Rightarrow> nat \<Rightarrow> string \<times> js \<Rightarrow> 'm world \<Rightarrow> unit promise list \<times> 'm world" where
  "emitListener E h event w =
     (case methodsAndIdsStore (chans w h) (fst event) of
        Some ids \<Rightarrow> emit_ids E h (fst event) (snd event) ids w
      | None \<Rightarrow> ([], w))"

text \<open>
  \<^verbatim>\<open>dispatchEvent\<close> of the platform for an \<^verbatim>\<open>"emit"\<close> event: every listener
  registered at that moment is called, in registration order; what a listener returns
  is dropped.
\<close>

definition dispatch_to :: "('v, 'm) server_env \<Rightarrow> string \<times> js \<Rightarrow> nat list \<Rightarrow> 'm world \<Rightarrow> 'm world" where
  "dispatch_to E event listeners w = fold (\<lambda>h w'. snd (emitListener E h event w')) listeners w"

definition dispatchEvent :: "('v, 'm) server_env \<Rightarrow> string \<times> js \<Rightarrow> 'm world \<Rightarrow> 'm world" where
  "dispatchEvent E event w = dispatch_to E event (bus w) w"

text \<open>The batch branch: \<^verbatim>\<open>validationObjectOrBatch.map(async ...)\<close>.\<close>

fun create_batch ::
  "('v, 'm) server_env \<Rightarrow> 'm \<Rightarrow> options \<Rightarrow> 'v list \<Rightarrow> store \<Rightarrow> js list \<times> store" where
  "create_batch E m opts [] st = ([], st)"
| "create_batch E m opts (v # vs) st =
     (let (r, st1) = createResponseObject E v m opts st;
          (rs, st2) = create_batch E m opts vs st1
      in (r # rs, st2))"

text \<open>\<^verbatim>\<open>handleWs\<close> up to its loop: the listener is made and registered.\<close>

definition handleWs_connect :: "nat \<Rightarrow> 'm world \<Rightarrow> 'm world" where
  "handleWs_connect h w =
     (let c = chans w h;
          w1 = (if \<not> disableInternalMethods (options c)
                then w\<lparr>bus := addEventListener (bus w) h\<rparr> else w)
      in w1\<lparr>chans := (chans w1)(h := c\<lparr>phase := Running\<rparr>)\<rparr>)"

text \<open>
  The body of the loop for one event \<open>ev\<close>. The first component is the exception that
  leaves the body, if any.
\<close>

definition handleWs_event ::
  "('v, 'm) server_env \<Rightarrow> nat \<Rightarrow> ws_event \<Rightarrow> 'm world \<Rightarrow> exn option \<times> 'm world" where
  "handleWs_event E h ev w =
     (let c = chans w h in
      case ev of
        Text s \<Rightarrow>
          (let (responseObjectOrBatchOrNull, st) =
                 (case validateRequest E s (methods c) of
                    Batch vs \<Rightarrow>
                      (let (rs, st) = create_batch E (methods c) (options c) vs (methodsAndIdsStore c)
                       in (cleanBatch rs, st))
                  | Single v \<Rightarrow>
                      createResponseObject E v (methods c) (options c) (methodsAndIdsStore c));
               c1 = c\<lparr>methodsAndIdsStore := st\<rparr>
           in if truthy responseObjectOrBatchOrNull then
                (case socket_send (JSON_stringify E responseObjectOrBatchOrNull) (socket c1) of
                   (Inr u, s) \<Rightarrow> (None, w\<lparr>chans := (chans w)(h := c1\<lparr>socket := s\<rparr>)\<rparr>)
                 | (Inl e, s) \<Rightarrow> (Some e, w\<lparr>chans := (chans w)(h := c1\<lparr>socket := s\<rparr>)\<rparr>))
              else (None, w\<lparr>chans := (chans w)(h := c1)\<rparr>))
      | Ping body \<Rightarrow> (None, w)
      | Close code reason \<Rightarrow>
          (None, if \<not> disableInternalMethods (options c)
                 then w\<lparr>bus := removeEventListener (bus w) h\<rparr> else w)
      | _ \<Rightarrow> (None, w))"

text \<open>The \<^verbatim>\<open>catch\<close> block of \<^verbatim>\<open>handleWs\<close>; the promise is that of \<^verbatim>\<open>handleWs\<close>.\<close>

definition handleWs_catch :: "nat \<Rightarrow> 'm world \<Rightarrow> unit promise \<times> 'm world" where
  "handleWs_catch h w =
     (let c = chans w h;
          w1 = (if \<not> disableInternalMethods (options c)
                then w\<lparr>bus := removeEventListener (bus w) h\<rparr> else w)
      in if \<not> isClosed (socket c) then
           (let (r, s) = socket_close 1000 (socket c)
            in (catch_promise r (\<lambda>err. Inr ()), w1\<lparr>chans := (chans w1)(h := c\<lparr>socket := s\<rparr>)\<rparr>))
         else (Inr (), w1))"

definition exit_handler :: "nat \<Rightarrow> 'm world \<Rightarrow> 'm world" where
  "exit_handler h w = w\<lparr>chans := (chans w)(h := (chans w h)\<lparr>phase := Exited\<rparr>)\<rparr>"

text \<open>
  The process as a sequence of actions: \<^verbatim>\<open>handleWs\<close> is called for a channel, the
  loop of a channel gets its next read, or the application dispatches an emission.
  The handlers of the channels and the emissions interleave at these points.
  \<^verbatim>\<open>handleWs\<close> is called once for a socket. \<open>Emit\<close> is an emission whose callbacks
  all run to their end before the next action; emissions whose callbacks are still
  suspended when something else happens are the matter of the next section.
\<close>

datatype action = Connect nat | Receive nat read | Emit string js

fun step :: "('v, 'm) server_env \<Rightarrow> action \<Rightarrow> 'm world \<Rightarrow> 'm world" where
  "step E (Connect h) w = (if phase (chans w h) = Idle then handleWs_connect h w else w)"
| "step E (Receive h r) w =
     (if phase (chans w h) = Running then
        (case r of
           Done \<Rightarrow> exit_handler h w
         | Fail e \<Rightarrow> exit_handler h (snd (handleWs_catch h w))
         | Event ev \<Rightarrow>
             (case handleWs_event E h ev w of
                (None, w') \<Rightarrow> w'
              | (Some e, w') \<Rightarrow> exit_handler h (snd (handleWs_catch h w'))))
      else w)"
| "step E (Emit method params) w = dispatchEvent E (method, params) w"

definition run :: "('v, 'm) server_env \<Rightarrow> action list \<Rightarrow> 'm world \<Rightarrow> 'm world" where
  "run E acts w = fold (step E) acts w"

text \<open>
  \<^verbatim>\<open>handleWs\<close> for the channel \<open>h\<close> whose socket yields \<open>reads\<close>, when nothing
  else happens in between.
\<close>

definition handleWs :: "('v, 'm) server_env \<Rightarrow> nat \<Rightarrow> read list \<Rightarrow> 'm world \<Rightarrow> 'm world" where
  "handleWs E h reads w = run E (Connect h # map (Receive h) reads) w"

section \<open>Emissions in flight\<close>

text \<open>
  A callback of \<^verbatim>\<open>ids.map\<close> in \<^verbatim>\<open>emitListener\<close> does not run in one piece: it is
  suspended at \<^verbatim>\<open>await createResponseObject(...)\<close> (\<open>Creating\<close>, with the validation
  object it passed) and, if there is a response, at \<^verbatim>\<open>await socket.send(...)\<close>
  (\<open>Sending\<close>, with whether that send raises). In between, anything else may happen.
\<close>

datatype 'v callback = Creating 'v | Sending bool

text \<open>
  The process with its suspended callbacks, each with the number of its emission and
  its channel. \<open>dispatched\<close> counts the emissions so far; \<open>pushes\<close> lists, by emission
  and channel, the calls of \<^verbatim>\<open>socket.send\<close> that callbacks have made.
\<close>

record ('v, 'm) system =
  now :: "'m world"
  pending :: "(nat \<times> nat \<times> 'v callback) list"
  dispatched :: nat
  pushes :: "(nat \<times> nat) list"

text \<open>
  What a call of the listener of \<open>h\<close> starts for the emission number \<open>n\<close>: one
  callback for every id under \<^verbatim>\<open>method\<close>, each run up to its first \<^verbatim>\<open>await\<close>.
\<close>

definition listener_callbacks ::
  "('v, 'm) server_env \<Rightarrow> 'm world \<Rightarrow> nat \<Rightarrow> string \<Rightarrow> js \<Rightarrow> nat \<Rightarrow> (nat \<times> nat \<times> 'v callback) list" where
  "listener_callbacks E w n method params h =
     (case methodsAndIdsStore (chans w h) method of
        Some ids \<Rightarrow>
          map (\<lambda>i. (n, h, Creating (validateRpcRequestObject E (emission_request method params i)
                                       (methods (chans w h))))) ids
      | None \<Rightarrow> [])"

text \<open>The list without its element at position \<open>k\<close>.\<close>

definition remove_nth :: "nat \<Rightarrow> 'a list \<Rightarrow> 'a list" where
  "remove_nth k xs = take k xs @ drop (Suc k) xs"

text \<open>
  The callback at position \<open>k\<close> goes on to its next \<^verbatim>\<open>await\<close> or to its end. The
  result of \<^verbatim>\<open>createResponseObject\<close>, and with it its effect on the table, arrives
  when the callback resumes.
\<close>

fun resume ::
  "('v, 'm) server_env \<Rightarrow> nat \<Rightarrow> nat \<times> nat \<times> 'v callback \<Rightarrow> ('v, 'm) system \<Rightarrow> ('v, 'm) system" where
  "resume E k (n, h, Creating v) s =
     (let w = now s;
          c = chans w h;
          (response, st) = createResponseObject E v (methods c) (options c) (methodsAndIdsStore c);
          c1 = c\<lparr>methodsAndIdsStore := st\<rparr>
      in if truthy response then
           (case socket_send (JSON_stringify E response) (socket c1) of
              (r, sk) \<Rightarrow>
                s\<lparr>now := w\<lparr>chans := (chans w)(h := c1\<lparr>socket := sk\<rparr>)\<rparr>,
                  pending := (pending s)[k := (n, h, Sending (isl r))],
                  pushes := pushes s @ [(n, h)]\<rparr>)
         else s\<lparr>now := w\<lparr>chans := (chans w)(h := c1)\<rparr>, pending := remove_nth k (pending s)\<rparr>)"
| "resume E k (n, h, Sending raised) s =
     s\<lparr>now := (if raised then (now s)\<lparr>bus := removeEventListener (bus (now s)) h\<rparr> else now s),
       pending := remove_nth k (pending s)\<rparr>"

text \<open>
  What can happen next: \<^verbatim>\<open>handleWs\<close> is called, a loop gets its next read, an
  emission is dispatched (every listener on the bus is called), or a suspended callback
  resumes.
\<close>

datatype event = Called nat | Read nat read | Dispatch string js | Settle nat

fun advance :: "('v, 'm) server_env \<Rightarrow> event \<Rightarrow> ('v, 'm) system \<Rightarrow> ('v, 'm) system" where
  "advance E (Called h) s = s\<lparr>now := step E (Connect h) (now s)\<rparr>"
| "advance E (Read h r) s = s\<lparr>now := step E (Receive h r) (now s)\<rparr>"
| "advance E (Dispatch method params) s =
     s\<lparr>pending := pending s @
          concat (map (listener_callbacks E (now s) (dispatched s) method params) (bus (now s))),
       dispatched := Suc (dispatched s)\<rparr>"
| "advance E (Settle k) s = (if k < length (pending s) then resume E k (pending s ! k) s else s)"

definition proceed :: "('v, 'm) server_env \<Rightarrow> event list \<Rightarrow> ('v, 'm) system \<Rightarrow> ('v, 'm) system" where
  "proceed E evs s = fold (advance E) evs s"

section \<open>Concrete inputs\<close>

text \<open>A client, the store it runs in, and peers that answer every request the same way.\<close>

definition example_env :: "(request \<Rightarrow> response promise) \<Rightarrow> client_env" where
  "example_env srv =
     \<lparr>server = srv,
      stringify = (\<lambda>v. to_string (\<lambda>n. ''0'') v),
      number_to_string = (\<lambda>n. if n = 1 then ''1'' else if n = 2 then ''2'' else ''0''),
      createRequest = (\<lambda>method params n.
         JObject [(''jsonrpc'', JString ''2.0''), (''method'', JString method), (''params'', params)]),
      createRequestBatch = (\<lambda>b n. JArray [])\<rparr>"

definition example_net :: net where
  "example_net = \<lparr>heap = [[(''content-type'', ''application/json'')]], sent = []\<rparr>"

definition example_client :: client where
  "example_client =
     \<lparr>resource = ResourceString ''http://localhost:8000'',
      fetchInit = \<lparr>init_method = ''POST'', init_headers = 0, init_body = None\<rparr>\<rparr>"

definition replies :: "js \<Rightarrow> request \<Rightarrow> response promise" where
  "replies v req = Inr \<lparr>status = 200, statusText = ''OK'', content_length = None, json = Inr v\<rparr>"


definition status_500 :: "request \<Rightarrow> response promise" where
  "status_500 req =
     Inr \<lparr>status = 500, statusText = ''Internal Server Error'', content_length = None,
          json = Inl (NativeError ''Unexpected end of JSON input'')\<rparr>"

definition success_response :: "js \<Rightarrow> js \<Rightarrow> js" where
  "success_response i v = JObject [(''jsonrpc'', JString ''2.0''), (''result'', v), (''id'', i)]"

definition failure_response :: "js \<Rightarrow> real \<Rightarrow> string \<Rightarrow> js" where
  "failure_response i c m =
     JObject [(''jsonrpc'', JString ''2.0''),
              (''error'', JObject [(''code'', JNumber c), (''message'', JString m)]), (''id'', i)]"

text \<open>A response that carries a result and a well-formed error at once.\<close>

definition both_response :: js where
  "both_response =
     JObject [(''jsonrpc'', JString ''2.0''), (''id'', JNumber 1), (''result'', JNumber 7),
              (''error'', JObject [(''code'', JNumber (- 32000)), (''message'', JString ''boom'')])]"

text \<open>
  A client made with a default \<^verbatim>\<open>Authorization\<close> header, and the store after its
  construction.
\<close>

definition authorized_client :: "client \<times> net" where
  "authorized_client =
     (\<lparr>resource = ResourceString ''http://localhost:8000'',
       fetchInit = \<lparr>init_method = ''POST'', init_headers = 0, init_body = None\<rparr>\<rparr>,
      \<lparr>heap = [[(''authorization'', ''Basic dXNlcjpwdw==''), (''content-type'', ''application/json'')]],
       sent = []\<rparr>)"

section \<open>Observing a channel\<close>

text \<open>
  The channel \<open>h\<close> has no listener on the bus and will get none: its handler has been
  called already, or its options disable the internal methods.
\<close>

definition unobserved :: "nat \<Rightarrow> 'm world \<Rightarrow> bool" where
  "unobserved h w \<longleftrightarrow>
     h \<notin> set (bus w) \<and>
     (phase (chans w h) \<noteq> Idle \<or> disableInternalMethods (options (chans w h)))"

text \<open>
  The emissions named by the suspended callbacks and by the logged pushes have all been
  dispatched.
\<close>

definition consistent :: "('v, 'm) system \<Rightarrow> bool" where
  "consistent s \<longleftrightarrow>
     list_all (\<lambda>x. fst x < dispatched s) (pending s) \<and>
     list_all (\<lambda>x. fst x < dispatched s) (pushes s)"

text \<open>
  The channel \<open>h\<close> has no listener and will get none, and whatever is suspended or
  logged for it belongs to an emission with a number below \<open>N\<close>.
\<close>

definition settled_before :: "nat \<Rightarrow> nat \<Rightarrow> ('v, 'm) system \<Rightarrow> bool" where
  "settled_before N h s \<longleftrightarrow>
     unobserved h (now s) \<and>
     list_all (\<lambda>x. fst (snd x) \<noteq> h \<or> fst x < N) (pending s) \<and>
     list_all (\<lambda>x. snd x \<noteq> h \<or> fst x < N) (pushes s)"

text \<open>
  A stand-in for \<^verbatim>\<open>JSON.stringify\<close> on the values of the examples (it prints the
  numbers 1, 2 and 42 and takes every other number for 0).
\<close>

fun show_json :: "js \<Rightarrow> string" where
  "show_json JUndefined = ''undefined''"
| "show_json JNull = ''null''"
| "show_json (JBool b) = (if b then ''true'' else ''false'')"
| "show_json (JNumber n) =
     (if n = 1 then ''1'' else if n = 2 then ''2'' else if n = 42 then ''42'' else ''0'')"
| "show_json (JString s) = [CHR 0x22] @ s @ [CHR 0x22]"
| "show_json (JArray xs) = ''['' @ intercalate '','' (map show_json xs) @ '']''"
| "show_json (JObject kvs) =
     ''{'' @ intercalate '','' (map (\<lambda>kv. [CHR 0x22] @ fst kv @ [CHR 0x22] @ '':'' @ show_json (snd kv)) kvs)
       @ ''}''"

text \<open>
  A server whose validation object is the request itself and whose builder echoes: a
  request with an id is answered with its \<^verbatim>\<open>params\<close> as the result, a request
  without id gets no response. The text \<^verbatim>\<open>batch\<close> stands for a batch of a
  notification, the request 1, a notification and the request 2; \<^verbatim>\<open>notes\<close> for a
  batch of two notifications.
\<close>

definition example_request :: "js \<Rightarrow> js" where
  "example_request i =
     JObject ([(''jsonrpc'', JString ''2.0''), (''method'', JString ''echo''), (''params'', i)]
              @ (if i = JUndefined then [] else [(''id'', i)]))"

definition example_server :: "(js, unit) server_env" where
  "example_server =
     \<lparr>validateRequest = (\<lambda>s m.
        if s = ''batch'' then Batch [example_request JUndefined, example_request (JNumber 1),
                                     example_request JUndefined, example_request (JNumber 2)]
        else if s = ''notes'' then Batch [example_request JUndefined, example_request JUndefined]
        else Single (example_request (JString s))),
      validateRpcRequestObject = (\<lambda>v m. v),
      createResponseObject = (\<lambda>v m opts st.
        (if get v ''id'' = JUndefined then JNull
         else JObject [(''jsonrpc'', JString ''2.0''), (''result'', get v ''params''),
                       (''id'', get v ''id'')], st)),
      JSON_stringify = show_json\<rparr>"

text \<open>
  A channel subscribed to \<^verbatim>\<open>("priceUpdate", "sub-1")\<close>, with a socket whose
  \<^verbatim>\<open>send\<close> works or raises as told, and worlds in which it is the channel 0.
\<close>

definition example_socket :: "bool \<Rightarrow> socket" where
  "example_socket dead =
     \<lparr>isClosed = False, writes = [], closes = [], send_raises = (\<lambda>n. dead), close_raises = dead\<rparr>"

definition example_channel :: "bool \<Rightarrow> bool \<Rightarrow> phase \<Rightarrow> unit channel" where
  "example_channel dead disabled ph =
     \<lparr>socket = example_socket dead, methods = (),
      options = \<lparr>disableInternalMethods = disabled\<rparr>,
      methodsAndIdsStore = [''priceUpdate'' \<mapsto> [''sub-1'']], phase = ph\<rparr>"

definition example_world :: "nat list \<Rightarrow> unit channel \<Rightarrow> unit world" where
  "example_world listeners c = \<lparr>bus = listeners, chans = (\<lambda>h. c)\<rparr>"

definition price_42 :: js where
  "price_42 = JObject [(''price'', JNumber 42)]"

text \<open>The subscribed channel with a dead socket, its listener registered, nothing in flight.\<close>

definition example_system :: "(js, unit) system" where
  "example_system =
     \<lparr>now = example_world [0] (example_channel True False Running),
      pending = [], dispatched = 0, pushes = []\<rparr>"

section \<open>Properties of the response validation\<close>

lemma typeof_number_iff: "typeof v = ''number'' \<longleftrightarrow> (\<exists>n. v = JNumber n)"
  by (cases v) auto

lemma typeof_string_iff: "typeof v = ''string'' \<longleftrightarrow> (\<exists>s. v = JString s)"
  by (cases v) auto

text \<open>The three predicates, read on the value itself.\<close>

lemma validateRpcBasis_iff:
  "validateRpcBasis v \<longleftrightarrow>
     get v ''jsonrpc'' = JString ''2.0'' \<and>
     ((\<exists>n. get v ''id'' = JNumber n) \<or> (\<exists>s. get v ''id'' = JString s) \<or> get v ''id'' = JNull)"
  by (simp add: validateRpcBasis_def typeof_number_iff typeof_string_iff)

lemma validateRpcFailure_iff:
  "validateRpcFailure v \<longleftrightarrow>
     (\<exists>n. get (get v ''error'') ''code'' = JNumber n) \<and>
     (\<exists>s. get (get v ''error'') ''message'' = JString s)"
  by (simp add: validateRpcFailure_def typeof_number_iff typeof_string_iff)

lemma validateRpcBasis_object: "validateRpcBasis v \<Longrightarrow> \<exists>kvs. v = JObject kvs"
  by (cases v) (simp_all add: validateRpcBasis_def)

text \<open>
  C2, as the code has it. For every value \<open>v\<close>: a valid basis that carries a
  \<^verbatim>\<open>result\<close> key is returned as it is, and the caller gets its \<^verbatim>\<open>result\<close>
  unchanged; a valid basis without a \<^verbatim>\<open>result\<close> key whose \<^verbatim>\<open>error.code\<close> is a
  number and whose \<^verbatim>\<open>error.message\<close> is a string raises the structured error with
  exactly that code, message and id (and the \<^verbatim>\<open>data\<close> of the error object); every
  other value raises the structured error with code -32003 and id \<^verbatim>\<open>null\<close>.
\<close>

theorem validateResponse_classifies:
  "(validateRpcBasis v \<and> has_key ''result'' v \<longrightarrow>
      validateResponse v = Inr v \<and> validated_result v = Inr (get v ''result'')) \<and>
   (validateRpcBasis v \<and> \<not> has_key ''result'' v \<and> validateRpcFailure v \<longrightarrow>
      validateResponse v =
        Inl (BadServerDataError (get v ''id'') (get (get v ''error'') ''message'')
               (get (get v ''error'') ''code'') (get (get v ''error'') ''data''))) \<and>
   (\<not> (validateRpcBasis v \<and> (has_key ''result'' v \<or> validateRpcFailure v)) \<longrightarrow>
      validateResponse v =
        Inl (BadServerDataError JNull (JString ''Received data is no RPC response object.'')
               (JNumber (- 32003)) JUndefined))"
  by (auto simp: validateResponse_def validated_result_def validateRpcSuccess_def)

theorem validateResponse_classifies_witness:
  "validateResponse (success_response (JNumber 1) (JNumber 3))
     = Inr (success_response (JNumber 1) (JNumber 3)) \<and>
   validated_result (success_response (JNumber 1) (JNumber 3)) = Inr (JNumber 3) \<and>
   validateResponse (failure_response (JString ''a'') (- 32601) ''Method not found'')
     = Inl (BadServerDataError (JString ''a'') (JString ''Method not found'')
              (JNumber (- 32601)) JUndefined) \<and>
   validateResponse (JString ''hello'')
     = Inl (BadServerDataError JNull (JString ''Received data is no RPC response object.'')
              (JNumber (- 32003)) JUndefined)"
  using validateResponse_classifies [of "success_response (JNumber 1) (JNumber 3)"]
    validateResponse_classifies [of "failure_response (JString ''a'') (- 32601) ''Method not found''"]
    validateResponse_classifies [of "JString ''hello''"]
  by (simp add: success_response_def failure_response_def validateRpcBasis_def
      validateRpcFailure_def)

text \<open>
  C2 as it was stated fails where a valid basis carries a well-formed error and a
  \<^verbatim>\<open>result\<close> key as well: no error is raised there.
\<close>

theorem validateResponse_failure_with_result_counterexample:
  "validateRpcBasis both_response \<and> validateRpcFailure both_response \<and>
   validateResponse both_response \<noteq>
     Inl (BadServerDataError (get both_response ''id'')
            (get (get both_response ''error'') ''message'')
            (get (get both_response ''error'') ''code'')
            (get (get both_response ''error'') ''data''))"
  by (simp add: both_response_def validateResponse_def validateRpcBasis_def
      validateRpcFailure_def validateRpcSuccess_def)

text \<open>
  C10. A valid basis that carries both a \<^verbatim>\<open>result\<close> key and a well-formed error
  object is a success: \<^verbatim>\<open>validateResponse\<close> returns it and raises nothing.
\<close>

theorem validateResponse_success_precedence:
  "validateRpcBasis v \<Longrightarrow> has_key ''result'' v \<Longrightarrow> validateRpcFailure v \<Longrightarrow>
     validateResponse v = Inr v"
  by (simp add: validateResponse_def validateRpcSuccess_def)

theorem validateResponse_success_precedence_witness:
  "validateRpcBasis both_response \<and> has_key ''result'' both_response \<and>
   validateRpcFailure both_response \<and> validateResponse both_response = Inr both_response"
proof -
  have b: "validateRpcBasis both_response"
    by (simp add: both_response_def validateRpcBasis_def)
  have r: "has_key ''result'' both_response"
    by (simp add: both_response_def)
  have f: "validateRpcFailure both_response"
    by (simp add: both_response_def validateRpcFailure_def)
  from b r f validateResponse_success_precedence [OF b r f] show ?thesis by simp
qed

section \<open>Properties of the client\<close>

lemma sent_send:
  "sent (snd (send E r init w)) = sent w @
     [\<lparr>req_resource = (case r of ResourceURL h \<Rightarrow> ResourceString h | r \<Rightarrow> r),
       req_method = init_method init, req_headers = deref w (init_headers init),
       req_body = init_body init\<rparr>]"
  by (simp add: send_def fetch_def Let_def)

lemma heap_send: "heap (snd (send E r init w)) = heap w"
  by (simp add: send_def fetch_def Let_def)

lemma show_nat_500: "show_nat 500 = ''500''"
  by code_simp

text \<open>
  Whatever the handler of \<^verbatim>\<open>then\<close> rejects with goes through the \<^verbatim>\<open>catch\<close> that
  follows it: on a status outside 200-299 \<^verbatim>\<open>send\<close> rejects with the message of the
  status error under the code -32001.
\<close>

lemma send_not_ok:
  assumes "server E \<lparr>req_resource = (case r of ResourceURL h \<Rightarrow> ResourceString h | r \<Rightarrow> r),
                      req_method = init_method init,
                      req_headers = deref w (init_headers init), req_body = init_body init\<rparr> = Inr res"
    and "\<not> ok res"
  shows "fst (send E r init w) =
           Inl (BadServerDataError JNull
                  (JString (show_nat (status res) @ '' '' @ [CHR 0x27] @ statusText res
                            @ [CHR 0x27] @ '' received instead of 200-299 range.''))
                  (JNumber (- 32001)) JUndefined)"
  using assms by (simp add: send_def fetch_def then_promise_def catch_promise_def)

text \<open>A body that does not decode rejects under the code -32001, with id \<^verbatim>\<open>null\<close>.\<close>

lemma send_malformed_body:
  assumes "server E \<lparr>req_resource = (case r of ResourceURL h \<Rightarrow> ResourceString h | r \<Rightarrow> r),
                      req_method = init_method init,
                      req_headers = deref w (init_headers init), req_body = init_body init\<rparr> = Inr res"
    and "ok res" and "status res \<noteq> 204" and "content_length res \<noteq> Some ''0''"
    and "json res = Inl e"
  shows "fst (send E r init w) = Inl (BadServerDataError JNull (message e) (JNumber (- 32001)) JUndefined)"
  using assms by (simp add: send_def fetch_def then_promise_def catch_promise_def)

text \<open>A body that decodes is what \<^verbatim>\<open>send\<close> resolves with; without a body, \<^verbatim>\<open>undefined\<close>.\<close>

lemma send_body:
  assumes "server E \<lparr>req_resource = (case r of ResourceURL h \<Rightarrow> ResourceString h | r \<Rightarrow> r),
                      req_method = init_method init,
                      req_headers = deref w (init_headers init), req_body = init_body init\<rparr> = Inr res"
    and "ok res"
  shows "fst (send E r init w) =
           (if status res = 204 \<or> content_length res = Some ''0'' then Inr JUndefined
            else case json res of
                   Inl e \<Rightarrow> Inl (BadServerDataError JNull (message e) (JNumber (- 32001)) JUndefined)
                 | Inr v \<Rightarrow> Inr v)"
  using assms
  by (simp add: send_def fetch_def then_promise_def catch_promise_def split: sum.splits)

text \<open>
  C1. The claim: a call whose transport answers with a status outside 200-299 rejects
  with the structured error of code -32002 and id \<^verbatim>\<open>null\<close>. The code at a peer that
  answers 500: the promises \<^verbatim>\<open>call\<close> and \<^verbatim>\<open>batch\<close> return are rejected with id
  \<^verbatim>\<open>null\<close> and the message of the status error, but under the code -32001.
\<close>

theorem call_status_500_code:
  "fst (call (example_env status_500) example_client ''add'' JNull
          \<lparr>isNotification = None, jwt = None\<rparr> example_net) =
     Inr (Inl (BadServerDataError JNull
                 (JString ''500 'Internal Server Error' received instead of 200-299 range.'')
                 (JNumber (- 32001)) JUndefined)) \<and>
   fst (batch (example_env status_500) example_client (BatchArrayInput []) None example_net) =
     Inl (BadServerDataError JNull
            (JString ''500 'Internal Server Error' received instead of 200-299 range.'')
            (JNumber (- 32001)) JUndefined)"
  by (simp add: call_def batch_def send_def fetch_def then_promise_def catch_promise_def ok_def
      example_env_def example_client_def example_net_def status_500_def show_nat_500)









lemma lowercase_examples:
  "lowercase ''Authorization'' = ''authorization''"
  "lowercase ''Content-Type'' = ''content-type''"
  "lowercase ''authorization'' = ''authorization''"
  "lowercase ''content-type'' = ''content-type''"
  by code_simp+

lemma header_name_examples:
  "header_name ''Authorization''" "header_name ''Content-Type''"
  "header_name ''authorization''" "header_name ''content-type''"
  by code_simp+

lemma header_value_examples:
  "normalize_value ''application/json'' = ''application/json''"
  "header_value ''application/json''"
  "normalize_value ''Basic dXNlcjpwdw=='' = ''Basic dXNlcjpwdw==''"
  "header_value ''Basic dXNlcjpwdw==''"
  "normalize_value ''Bearer tok'' = ''Bearer tok''"
  "header_value ''Bearer tok''"
  by code_simp+

text \<open>What the constructor of \<^verbatim>\<open>Headers\<close> lets in is legal, and stays so.\<close>

lemma of_char_lower_char:
  "(of_char (lower_char c) :: nat) =
     (if (65::nat) \<le> of_char c \<and> (of_char c :: nat) \<le> 90 then of_char c + 32 else of_char c)"
  by (simp add: lower_char_def)

lemma lower_char_idem: "lower_char (lower_char c) = lower_char c"
  using of_char_lower_char [of c] by (auto simp: lower_char_def [of "lower_char c"])

lemma lowercase_idem: "lowercase (lowercase n) = lowercase n"
  by (simp add: lowercase_def lower_char_idem)

lemma tchar_lower_char: "tchar c \<Longrightarrow> tchar (lower_char c)"
proof (cases "(65::nat) \<le> of_char c \<and> (of_char c :: nat) \<le> 90")
  case True
  then show ?thesis using of_char_lower_char [of c] by (simp add: tchar_def)
next
  case False
  then have "lower_char c = c" by (auto simp: lower_char_def)
  then show "tchar c \<Longrightarrow> ?thesis" by simp
qed

lemma header_name_lowercase: "header_name n \<Longrightarrow> header_name (lowercase n)"
  by (auto simp: header_name_def lowercase_def list_all_iff tchar_lower_char)

lemma dropWhile_idem': "dropWhile P (dropWhile P xs) = dropWhile P xs"
  by (induction xs) auto

lemma dropWhile_hd: "xs \<noteq> [] \<Longrightarrow> \<not> P (hd xs) \<Longrightarrow> dropWhile P xs = xs"
  by (cases xs) auto

lemma dropWhile_rev_dropWhile:
  "dropWhile P (rev (dropWhile P (rev (dropWhile P v)))) = rev (dropWhile P (rev (dropWhile P v)))"
proof (cases "dropWhile P (rev (dropWhile P v)) = []")
  case True
  show ?thesis by (simp only: True rev.simps dropWhile.simps)
next
  case False
  let ?a = "dropWhile P v"
  let ?c = "dropWhile P (rev ?a)"
  have a: "?a \<noteq> []"
  proof
    assume e: "?a = []"
    have "?c = []" by (simp only: e rev.simps dropWhile.simps)
    with False show False by (rule notE)
  qed
  then have na: "\<not> P (hd ?a)" by (rule hd_dropWhile)
  have "rev ?a = takeWhile P (rev ?a) @ ?c" by simp
  then have "rev (rev ?a) = rev (takeWhile P (rev ?a) @ ?c)" by (rule arg_cong)
  then have split: "?a = rev ?c @ rev (takeWhile P (rev ?a))" by (simp only: rev_rev_ident rev_append)
  from False have rc: "rev ?c \<noteq> []" by simp
  have "hd ?a = hd (rev ?c @ rev (takeWhile P (rev ?a)))" using split by (rule arg_cong)
  also have "\<dots> = hd (rev ?c)" using rc by (rule hd_append2)
  finally have "\<not> P (hd (rev ?c))" using na by simp
  with rc show ?thesis by (rule_tac dropWhile_hd)
qed

lemma normalize_value_idem: "normalize_value (normalize_value v) = normalize_value v"
  unfolding normalize_value_def
  by (simp only: dropWhile_rev_dropWhile rev_rev_ident dropWhile_idem')

lemma headers_append_result:
  assumes "headers_append h nv = Inr h'" and "list_all legal_header h"
  shows "list_all legal_header h'"
proof -
  from assms(1) have ok: "header_name (fst nv)" "header_value (normalize_value (snd nv))"
    and h': "h' = h @ [(lowercase (fst nv), normalize_value (snd nv))]"
    by (simp_all add: headers_append_def split: if_splits)
  have "legal_header (lowercase (fst nv), normalize_value (snd nv))"
    using ok by (simp add: legal_header_def header_name_lowercase lowercase_idem normalize_value_idem)
  with assms(2) show ?thesis by (simp add: h')
qed

lemma fill_headers_result:
  "fill_headers h init = Inr h' \<Longrightarrow> list_all legal_header h \<Longrightarrow> list_all legal_header h'"
proof (induction init arbitrary: h)
  case Nil
  then show ?case by simp
next
  case (Cons nv init)
  from Cons.prems(1) obtain h1 where a: "headers_append h nv = Inr h1"
    and f: "fill_headers h1 init = Inr h'"
    by (cases "headers_append h nv") simp_all
  from a Cons.prems(2) have "list_all legal_header h1" by (rule headers_append_result)
  with f show ?case by (rule Cons.IH)
qed

text \<open>Every \<^verbatim>\<open>Headers\<close> object the constructor makes holds legal entries only.\<close>

lemma new_Headers_legal: "new_Headers init = Inr h \<Longrightarrow> list_all legal_header h"
  unfolding new_Headers_def by (erule fill_headers_result) simp

lemma set_first_legal:
  "list_all legal_header h \<Longrightarrow> legal_header (n, v) \<Longrightarrow> list_all legal_header (set_first n v h)"
proof (induction h)
  case Nil
  then show ?case by simp
next
  case (Cons kx h)
  obtain k x where kx: "kx = (k, x)" by (cases kx)
  from Cons.prems(1) have "list_all legal_header (filter (\<lambda>kx. fst kx \<noteq> n) h)"
    by (simp add: list_all_iff)
  with Cons show ?case by (simp add: kx)
qed

lemma headers_set_legal:
  assumes "headers_set h n v = Inr h'" and "list_all legal_header h"
  shows "list_all legal_header h'"
proof -
  from assms(1) have ok: "header_name n" "header_value (normalize_value v)"
    and h': "h' = (if lowercase n \<in> fst ` set h
                   then set_first (lowercase n) (normalize_value v) h
                   else h @ [(lowercase n, normalize_value v)])"
    by (simp_all add: headers_set_def split: if_splits)
  have l: "legal_header (lowercase n, normalize_value v)"
    using ok by (simp add: legal_header_def header_name_lowercase lowercase_idem normalize_value_idem)
  show ?thesis
  proof (cases "lowercase n \<in> fst ` set h")
    case True
    with h' have "h' = set_first (lowercase n) (normalize_value v) h" by simp
    with assms(2) l show ?thesis by (simp add: set_first_legal)
  next
    case False
    with h' have "h' = h @ [(lowercase n, normalize_value v)]" by simp
    with assms(2) l show ?thesis by simp
  qed
qed

text \<open>A client made from a list of pairs, or from nothing, has legal persistent headers.\<close>

lemma new_Client_legal:
  assumes "new_Client res opt w = Inr (c, w')" and "\<forall>r. opt \<noteq> HeadersObject r"
  shows "init_headers (fetchInit c) < length (heap w') \<and>
         list_all legal_header (deref w' (init_headers (fetchInit c)))"
proof -
  obtain init where init: "opt = NoHeaders \<and> init = [] \<or> opt = HeadersInit init"
    using assms(2) by (cases opt) auto
  then have nc: "new_Client res opt w =
      (case map_sum id (\<lambda>h. alloc h w) (new_Headers init) of
         Inl e \<Rightarrow> Inl e
       | Inr (a, w1) \<Rightarrow>
           (case headers_set (deref w1 a) ''Content-Type'' ''application/json'' of
              Inl e \<Rightarrow> Inl e
            | Inr h \<Rightarrow>
                Inr (\<lparr>resource = res,
                      fetchInit = \<lparr>init_method = ''POST'', init_headers = a, init_body = None\<rparr>\<rparr>,
                     w1\<lparr>heap := (heap w1)[a := h]\<rparr>)))"
    by (auto simp: new_Client_def)
  from assms(1) nc obtain h0 where h0: "new_Headers init = Inr h0"
    by (cases "new_Headers init") simp_all
  from assms(1) nc h0 obtain h1 where h1: "headers_set h0 ''Content-Type'' ''application/json'' = Inr h1"
    by (cases "headers_set h0 ''Content-Type'' ''application/json''")
       (simp_all add: alloc_def deref_def)
  from assms(1) nc h0 h1 have c: "init_headers (fetchInit c) = length (heap w)"
    and w': "heap w' = heap w @ [h1]"
    by (auto simp: alloc_def deref_def)
  have "list_all legal_header h1"
    using h1 new_Headers_legal [OF h0] by (rule headers_set_legal)
  with c w' show ?thesis by (simp add: deref_def)
qed

text \<open>The constructor makes the client with the default \<^verbatim>\<open>Authorization\<close> header.\<close>

lemma new_Client_authorized:
  "new_Client (ResourceString ''http://localhost:8000'')
     (HeadersInit [(''Authorization'', ''Basic dXNlcjpwdw=='')]) \<lparr>heap = [], sent = []\<rparr>
   = Inr authorized_client"
  by (simp add: authorized_client_def new_Client_def alloc_def new_Headers_def headers_append_def
      headers_set_def deref_def lowercase_examples header_name_examples header_value_examples)

lemma deref_alloc: "deref (w\<lparr>heap := heap w @ [h]\<rparr>) (length (heap w)) = h"
  by (simp add: deref_def)

lemma headers_append_legal: "legal_header kv \<Longrightarrow> headers_append h kv = Inr (h @ [kv])"
  by (cases kv) (simp add: headers_append_def legal_header_def)

text \<open>Copying the entries of a \<^verbatim>\<open>Headers\<close> object and then more pairs.\<close>

lemma fill_headers_legal:
  "list_all legal_header xs \<Longrightarrow> fill_headers h (xs @ ys) = fill_headers (h @ xs) ys"
  by (induction xs arbitrary: h) (simp_all add: headers_append_legal)

lemma new_Headers_bearer:
  assumes "list_all legal_header h"
  shows "new_Headers (headers_entries h @ [(''Authorization'', ''Bearer '' @ j)]) =
           (if header_value (normalize_value (''Bearer '' @ j))
            then Inr (h @ [(''authorization'', normalize_value (''Bearer '' @ j))])
            else Inl (NativeError ''Invalid header name or value''))"
  using assms
  by (simp add: new_Headers_def headers_entries_def fill_headers_legal headers_append_def
      header_name_examples lowercase_examples)

text \<open>
  C9, as the code has it. Let the client's persistent \<^verbatim>\<open>Headers\<close> object be in the
  store, and let the call have a non-empty bearer credential. If
  \<^verbatim>\<open>Bearer <jwt>\<close> is a legal header value once normalised, the call returns a promise
  and hands to the transport one request whose headers are a copy of the client's
  persistent headers followed by the one header \<^verbatim>\<open>authorization\<close> with that
  normalised value; the persistent \<^verbatim>\<open>Headers\<close> object holds after the call what it
  held before; and the request of a following call without a credential carries the
  persistent headers and nothing else, so it carries an \<^verbatim>\<open>Authorization\<close> header
  exactly if the persistent set holds one. If the value is not legal, \<^verbatim>\<open>call\<close>
  raises, no request is sent and nothing changes.
\<close>

theorem call_bearer_header:
  assumes "init_headers (fetchInit c) < length (heap w)"
    and "list_all legal_header (deref w (init_headers (fetchInit c)))"
    and "j \<noteq> []"
  shows "(header_value (normalize_value (''Bearer '' @ j)) \<longrightarrow>
            (\<exists>p. fst (call E c m ps \<lparr>isNotification = n, jwt = Some j\<rparr> w) = Inr p) \<and>
            (\<exists>req. sent (snd (call E c m ps \<lparr>isNotification = n, jwt = Some j\<rparr> w)) = sent w @ [req] \<and>
               req_headers req =
                 deref w (init_headers (fetchInit c))
                   @ [(''authorization'', normalize_value (''Bearer '' @ j))]) \<and>
            deref (snd (call E c m ps \<lparr>isNotification = n, jwt = Some j\<rparr> w)) (init_headers (fetchInit c))
              = deref w (init_headers (fetchInit c)) \<and>
            (\<exists>req. sent (snd (call E c m' ps' \<lparr>isNotification = n', jwt = None\<rparr>
                                 (snd (call E c m ps \<lparr>isNotification = n, jwt = Some j\<rparr> w))))
                    = sent (snd (call E c m ps \<lparr>isNotification = n, jwt = Some j\<rparr> w)) @ [req] \<and>
                  req_headers req = deref w (init_headers (fetchInit c)) \<and>
                  (headers_has (req_headers req) ''Authorization''
                     \<longleftrightarrow> headers_has (deref w (init_headers (fetchInit c))) ''Authorization''))) \<and>
         (\<not> header_value (normalize_value (''Bearer '' @ j)) \<longrightarrow>
            (\<exists>e. fst (call E c m ps \<lparr>isNotification = n, jwt = Some j\<rparr> w) = Inl e) \<and>
            snd (call E c m ps \<lparr>isNotification = n, jwt = Some j\<rparr> w) = w)"
proof (intro conjI impI)
  let ?a = "init_headers (fetchInit c)"
  let ?w1 = "snd (call E c m ps \<lparr>isNotification = n, jwt = Some j\<rparr> w)"
  note nh = new_Headers_bearer [OF assms(2), of j, simplified]
  {
    assume bad: "\<not> header_value (normalize_value (''Bearer '' @ j))"
    show "\<exists>e. fst (call E c m ps \<lparr>isNotification = n, jwt = Some j\<rparr> w) = Inl e"
      using assms(3) bad by (simp add: call_def Let_def nh)
    show "?w1 = w"
      using assms(3) bad by (simp add: call_def Let_def nh)
  }
  assume good: "header_value (normalize_value (''Bearer '' @ j))"
  show "\<exists>p. fst (call E c m ps \<lparr>isNotification = n, jwt = Some j\<rparr> w) = Inr p"
    using assms(3) good by (simp add: call_def Let_def nh alloc_def split_beta)
  have heap1: "heap ?w1 =
      heap w @ [deref w ?a @ [(''authorization'', normalize_value (''Bearer '' @ j))]]"
    using assms(3) good by (simp add: call_def Let_def nh alloc_def split_beta heap_send)
  show d1: "deref ?w1 ?a = deref w ?a"
    using assms(1) by (simp add: deref_def heap1 nth_append)
  show "\<exists>req. sent ?w1 = sent w @ [req] \<and>
            req_headers req = deref w ?a @ [(''authorization'', normalize_value (''Bearer '' @ j))]"
    using assms(1,3) good
    by (simp add: call_def Let_def nh alloc_def split_beta sent_send deref_alloc)
  show "\<exists>req. sent (snd (call E c m' ps' \<lparr>isNotification = n', jwt = None\<rparr> ?w1)) = sent ?w1 @ [req] \<and>
               req_headers req = deref w ?a \<and>
               (headers_has (req_headers req) ''Authorization''
                  \<longleftrightarrow> headers_has (deref w ?a) ''Authorization'')"
    unfolding d1 [symmetric]
    by (simp add: call_def [of E c m' ps'] split_beta Let_def sent_send)
qed

lemma example_net_legal:
  "list_all legal_header (deref example_net (init_headers (fetchInit example_client)))"
  by (simp add: example_net_def example_client_def deref_def legal_header_def lowercase_examples
      header_name_examples header_value_examples)

lemma bearer_line_feed:
  "\<not> header_value (normalize_value (''Bearer '' @ ''a'' @ [CHR 0x0A] @ ''b''))"
  by code_simp

theorem call_bearer_header_witness:
  "init_headers (fetchInit example_client) < length (heap example_net) \<and>
   list_all legal_header (deref example_net (init_headers (fetchInit example_client))) \<and>
   ''tok'' \<noteq> [] \<and> header_value (normalize_value (''Bearer '' @ ''tok'')) \<and>
   deref (snd (call (example_env (replies (success_response (JNumber 1) (JNumber 3))))
                 example_client ''add'' JNull \<lparr>isNotification = None, jwt = Some ''tok''\<rparr>
                 example_net)) 0
     = [(''content-type'', ''application/json'')] \<and>
   \<not> header_value (normalize_value (''Bearer '' @ ''a'' @ [CHR 0x0A] @ ''b'')) \<and>
   snd (call (example_env (replies (success_response (JNumber 1) (JNumber 3))))
          example_client ''add'' JNull
          \<lparr>isNotification = None, jwt = Some (''a'' @ [CHR 0x0A] @ ''b'')\<rparr> example_net)
     = example_net"
proof -
  have a: "init_headers (fetchInit example_client) < length (heap example_net)"
    by (simp add: example_client_def example_net_def)
  note l = example_net_legal
  have b: "''tok'' \<noteq> []" and b': "''a'' @ [CHR 0x0A] @ ''b'' \<noteq> []" by simp_all
  have g: "header_value (normalize_value (''Bearer '' @ ''tok''))"
    by (simp add: header_value_examples)
  from call_bearer_header [OF a l b, of "example_env (replies (success_response (JNumber 1) (JNumber 3)))"
      "''add''" JNull None] g
  have "deref (snd (call (example_env (replies (success_response (JNumber 1) (JNumber 3))))
                 example_client ''add'' JNull \<lparr>isNotification = None, jwt = Some ''tok''\<rparr>
                 example_net)) (init_headers (fetchInit example_client))
        = deref example_net (init_headers (fetchInit example_client))"
    by blast
  moreover from call_bearer_header [OF a l b',
      of "example_env (replies (success_response (JNumber 1) (JNumber 3)))" "''add''" JNull None]
    bearer_line_feed
  have "snd (call (example_env (replies (success_response (JNumber 1) (JNumber 3))))
          example_client ''add'' JNull
          \<lparr>isNotification = None, jwt = Some (''a'' @ [CHR 0x0A] @ ''b'')\<rparr> example_net)
     = example_net"
    by blast
  ultimately show ?thesis
    using a l b g bearer_line_feed
    by (simp add: example_client_def example_net_def deref_def)
qed

text \<open>
  C9 as it was stated fails for a client made with an \<^verbatim>\<open>Authorization\<close> header of
  its own: after a call with a credential, the request of the next call without one
  still carries an \<^verbatim>\<open>Authorization\<close> header. It fails as well for a credential
  with a line feed inside: \<^verbatim>\<open>call\<close> raises and no request is sent.
\<close>

theorem call_persistent_authorization_counterexample:
  "headers_has
     (req_headers (last (sent (snd
        (call (example_env (replies (success_response (JNumber 1) (JNumber 3))))
           (fst authorized_client) ''add'' JNull \<lparr>isNotification = None, jwt = None\<rparr>
           (snd (call (example_env (replies (success_response (JNumber 1) (JNumber 3))))
                   (fst authorized_client) ''add'' JNull
                   \<lparr>isNotification = None, jwt = Some ''tok''\<rparr>
                   (snd authorized_client))))))))
     ''Authorization'' \<and>
   isl (fst (call (example_env (replies (success_response (JNumber 1) (JNumber 3))))
               example_client ''add'' JNull
               \<lparr>isNotification = None, jwt = Some (''a'' @ [CHR 0x0A] @ ''b'')\<rparr> example_net)) \<and>
   sent (snd (call (example_env (replies (success_response (JNumber 1) (JNumber 3))))
                example_client ''add'' JNull
                \<lparr>isNotification = None, jwt = Some (''a'' @ [CHR 0x0A] @ ''b'')\<rparr> example_net))
     = []"
proof -
  have "\<not> header_value (normalize_value (''Bearer a'' @ [CHR 0x0A] @ ''b''))"
    by code_simp
  then show ?thesis
    by (simp add: authorized_client_def example_client_def example_net_def call_def send_def
        fetch_def Let_def alloc_def deref_def headers_has_def lowercase_examples new_Headers_def
        headers_append_def headers_entries_def header_name_examples header_value_examples)
qed

section \<open>Properties of the channel handler\<close>

subsection \<open>What one callback of the listener changes\<close>

lemma emit_to_id_fulfils: "fst (emit_to_id E h m p i w) = Inr ()"
  by (simp add: emit_to_id_def Let_def split_beta split: sum.splits prod.splits)

lemma emit_to_id_other: "h' \<noteq> h \<Longrightarrow> chans (snd (emit_to_id E h m p i w)) h' = chans w h'"
  by (simp add: emit_to_id_def Let_def split_beta split: sum.splits prod.splits)

lemma emit_to_id_options: "options (chans (snd (emit_to_id E h m p i w)) h') = options (chans w h')"
  by (simp add: emit_to_id_def Let_def split_beta split: sum.splits prod.splits)

lemma emit_to_id_methods: "methods (chans (snd (emit_to_id E h m p i w)) h') = methods (chans w h')"
  by (simp add: emit_to_id_def Let_def split_beta split: sum.splits prod.splits)

lemma emit_to_id_phase: "phase (chans (snd (emit_to_id E h m p i w)) h') = phase (chans w h')"
  by (simp add: emit_to_id_def Let_def split_beta split: sum.splits prod.splits)


lemma emit_to_id_bus: "set (bus (snd (emit_to_id E h m p i w))) \<subseteq> set (bus w)"
  by (auto simp: emit_to_id_def Let_def split_beta removeEventListener_def
      split: sum.splits prod.splits)


subsection \<open>The listener\<close>

lemma emit_ids_fulfil: "r \<in> set (fst (emit_ids E h m p ids w)) \<Longrightarrow> r = Inr ()"
proof (induction ids arbitrary: w)
  case Nil
  then show ?case by simp
next
  case (Cons i ids)
  then show ?case
    using emit_to_id_fulfils [of E h m p i w]
    by (auto simp: split_beta Let_def)
qed

lemma emit_ids_other: "h' \<noteq> h \<Longrightarrow> chans (snd (emit_ids E h m p ids w)) h' = chans w h'"
  by (induction ids arbitrary: w) (simp_all add: split_beta Let_def emit_to_id_other)

lemma emit_ids_options: "options (chans (snd (emit_ids E h m p ids w)) h') = options (chans w h')"
  by (induction ids arbitrary: w) (simp_all add: split_beta Let_def emit_to_id_options)

lemma emit_ids_methods: "methods (chans (snd (emit_ids E h m p ids w)) h') = methods (chans w h')"
  by (induction ids arbitrary: w) (simp_all add: split_beta Let_def emit_to_id_methods)

lemma emit_ids_phase: "phase (chans (snd (emit_ids E h m p ids w)) h') = phase (chans w h')"
  by (induction ids arbitrary: w) (simp_all add: split_beta Let_def emit_to_id_phase)

lemma emit_ids_bus: "set (bus (snd (emit_ids E h m p ids w))) \<subseteq> set (bus w)"
proof (induction ids arbitrary: w)
  case Nil
  then show ?case by simp
next
  case (Cons i ids)
  have "set (bus (snd (emit_ids E h m p ids (snd (emit_to_id E h m p i w)))))
          \<subseteq> set (bus (snd (emit_to_id E h m p i w)))"
    by (rule Cons.IH)
  also have "\<dots> \<subseteq> set (bus w)" by (rule emit_to_id_bus)
  finally show ?case by (simp add: split_beta Let_def)
qed

lemma emitListener_fulfil: "r \<in> set (fst (emitListener E h ev w)) \<Longrightarrow> r = Inr ()"
  by (auto simp: emitListener_def dest: emit_ids_fulfil split: option.splits)

lemma emitListener_other: "h' \<noteq> h \<Longrightarrow> chans (snd (emitListener E h ev w)) h' = chans w h'"
  by (simp add: emitListener_def emit_ids_other split: option.splits)

lemma emitListener_options: "options (chans (snd (emitListener E h ev w)) h') = options (chans w h')"
  by (simp add: emitListener_def emit_ids_options split: option.splits)

lemma emitListener_phase: "phase (chans (snd (emitListener E h ev w)) h') = phase (chans w h')"
  by (simp add: emitListener_def emit_ids_phase split: option.splits)

lemma emitListener_bus: "set (bus (snd (emitListener E h ev w))) \<subseteq> set (bus w)"
  by (simp add: emitListener_def emit_ids_bus split: option.splits)

subsection \<open>Dispatching an emission\<close>

lemma dispatch_to_other: "h \<notin> set hs \<Longrightarrow> chans (dispatch_to E ev hs w) h = chans w h"
proof (induction hs arbitrary: w)
  case Nil
  then show ?case by (simp add: dispatch_to_def)
next
  case (Cons h' hs)
  then have "chans (dispatch_to E ev hs (snd (emitListener E h' ev w))) h
               = chans (snd (emitListener E h' ev w)) h"
    by simp
  also have "\<dots> = chans w h" using Cons.prems by (simp add: emitListener_other)
  finally show ?case by (simp add: dispatch_to_def)
qed

lemma dispatch_to_options: "options (chans (dispatch_to E ev hs w) h) = options (chans w h)"
  by (induction hs arbitrary: w) (simp_all add: dispatch_to_def emitListener_options)

lemma dispatch_to_phase: "phase (chans (dispatch_to E ev hs w) h) = phase (chans w h)"
  by (induction hs arbitrary: w) (simp_all add: dispatch_to_def emitListener_phase)

lemma dispatch_to_bus: "set (bus (dispatch_to E ev hs w)) \<subseteq> set (bus w)"
proof (induction hs arbitrary: w)
  case Nil
  then show ?case by (simp add: dispatch_to_def)
next
  case (Cons h' hs)
  have "set (bus (dispatch_to E ev hs (snd (emitListener E h' ev w))))
          \<subseteq> set (bus (snd (emitListener E h' ev w)))"
    by (rule Cons.IH)
  also have "\<dots> \<subseteq> set (bus w)" by (rule emitListener_bus)
  finally show ?case by (simp add: dispatch_to_def)
qed

lemma dispatchEvent_unregistered:
  "h \<notin> set (bus w) \<Longrightarrow> chans (dispatchEvent E ev w) h = chans w h"
  by (simp add: dispatchEvent_def dispatch_to_other)

subsection \<open>The handler\<close>

lemma handleWs_connect_options: "options (chans (handleWs_connect h w) h') = options (chans w h')"
  by (simp add: handleWs_connect_def Let_def)

lemma handleWs_connect_phase:
  "phase (chans w h') \<noteq> Idle \<Longrightarrow> phase (chans (handleWs_connect h w) h') \<noteq> Idle"
  by (simp add: handleWs_connect_def Let_def)

lemma handleWs_connect_bus:
  "h' \<in> set (bus (handleWs_connect h w)) \<Longrightarrow>
     h' \<in> set (bus w) \<or> (h' = h \<and> \<not> disableInternalMethods (options (chans w h)))"
  by (auto simp: handleWs_connect_def Let_def addEventListener_def split: if_splits)

lemma handleWs_event_options:
  "options (chans (snd (handleWs_event E h ev w)) h') = options (chans w h')"
  by (simp add: handleWs_event_def Let_def split_beta
      split: ws_event.splits request_or_batch.splits sum.splits prod.splits)

lemma handleWs_event_phase:
  "phase (chans (snd (handleWs_event E h ev w)) h') = phase (chans w h')"
  by (simp add: handleWs_event_def Let_def split_beta
      split: ws_event.splits request_or_batch.splits sum.splits prod.splits)

lemma handleWs_event_bus: "set (bus (snd (handleWs_event E h ev w))) \<subseteq> set (bus w)"
  by (auto simp: handleWs_event_def Let_def split_beta removeEventListener_def
      split: ws_event.splits request_or_batch.splits sum.splits prod.splits)

lemma handleWs_catch_options: "options (chans (snd (handleWs_catch h w)) h') = options (chans w h')"
  by (simp add: handleWs_catch_def Let_def split_beta)

lemma handleWs_catch_phase: "phase (chans (snd (handleWs_catch h w)) h') = phase (chans w h')"
  by (simp add: handleWs_catch_def Let_def split_beta)

lemma handleWs_catch_bus: "set (bus (snd (handleWs_catch h w))) \<subseteq> set (bus w)"
  by (auto simp: handleWs_catch_def Let_def split_beta removeEventListener_def)

lemma handleWs_catch_fulfils: "fst (handleWs_catch h w) = Inr ()"
  by (simp add: handleWs_catch_def Let_def split_beta catch_promise_def socket_close_def)

lemma exit_handler_options: "options (chans (exit_handler h w) h') = options (chans w h')"
  by (simp add: exit_handler_def)

lemma exit_handler_phase:
  "phase (chans w h') \<noteq> Idle \<Longrightarrow> phase (chans (exit_handler h w) h') \<noteq> Idle"
  by (simp add: exit_handler_def)

lemma exit_handler_bus: "bus (exit_handler h w) = bus w"
  by (simp add: exit_handler_def)

subsection \<open>Steps and runs\<close>

lemma step_Receive_cases:
  obtains "step E (Receive h r) w = w"
  | ev where "step E (Receive h r) w = snd (handleWs_event E h ev w)"
  | "step E (Receive h r) w = exit_handler h w"
  | "step E (Receive h r) w = exit_handler h (snd (handleWs_catch h w))"
  | ev where "step E (Receive h r) w =
                exit_handler h (snd (handleWs_catch h (snd (handleWs_event E h ev w))))"
proof (cases "phase (chans w h) = Running")
  case False
  then have "step E (Receive h r) w = w" by simp
  then show ?thesis by (rule that(1))
next
  case True
  show ?thesis
  proof (cases r)
    case (Event ev)
    obtain e w' where hw: "handleWs_event E h ev w = (e, w')"
      by (cases "handleWs_event E h ev w")
    show ?thesis
    proof (cases e)
      case None
      with True Event hw have "step E (Receive h r) w = snd (handleWs_event E h ev w)" by simp
      then show ?thesis by (rule that(2))
    next
      case (Some x)
      with True Event hw have "step E (Receive h r) w =
          exit_handler h (snd (handleWs_catch h (snd (handleWs_event E h ev w))))" by simp
      then show ?thesis by (rule that(5))
    qed
  next
    case (Fail x)
    with True have "step E (Receive h r) w = exit_handler h (snd (handleWs_catch h w))" by simp
    then show ?thesis by (rule that(4))
  next
    case Done
    with True have "step E (Receive h r) w = exit_handler h w" by simp
    then show ?thesis by (rule that(3))
  qed
qed

lemma step_options: "options (chans (step E a w) h) = options (chans w h)"
proof (cases a)
  case (Connect h')
  then show ?thesis by (simp add: handleWs_connect_options)
next
  case (Receive h' r)
  show ?thesis unfolding Receive
    by (rule step_Receive_cases [of E h' r w])
       (simp_all add: exit_handler_options handleWs_catch_options handleWs_event_options)
next
  case (Emit m p)
  then show ?thesis by (simp add: dispatchEvent_def dispatch_to_options)
qed

lemma step_phase: "phase (chans w h) \<noteq> Idle \<Longrightarrow> phase (chans (step E a w) h) \<noteq> Idle"
proof (cases a)
  case (Connect h')
  assume "phase (chans w h) \<noteq> Idle"
  with Connect show ?thesis by (simp add: handleWs_connect_phase)
next
  case (Receive h' r)
  assume "phase (chans w h) \<noteq> Idle"
  then show ?thesis unfolding Receive
    by (rule_tac step_Receive_cases [of E h' r w])
       (simp_all add: exit_handler_phase handleWs_catch_phase handleWs_event_phase)
next
  case (Emit m p)
  assume "phase (chans w h) \<noteq> Idle"
  with Emit show ?thesis by (simp add: dispatchEvent_def dispatch_to_phase)
qed

lemma step_bus:
  assumes "h \<in> set (bus (step E a w))"
  shows "h \<in> set (bus w) \<or>
         (a = Connect h \<and> phase (chans w h) = Idle \<and> \<not> disableInternalMethods (options (chans w h)))"
proof (cases a)
  case (Connect h')
  with assms show ?thesis by (auto dest: handleWs_connect_bus split: if_splits)
next
  case (Receive h' r)
  have "set (bus (step E (Receive h' r) w)) \<subseteq> set (bus w)"
  proof (rule step_Receive_cases [of E h' r w])
    fix ev
    assume "step E (Receive h' r) w =
              exit_handler h' (snd (handleWs_catch h' (snd (handleWs_event E h' ev w))))"
    then show ?thesis
      using handleWs_catch_bus [of h' "snd (handleWs_event E h' ev w)"] handleWs_event_bus [of E h' ev w]
      by (auto simp: exit_handler_bus)
  qed (simp_all add: exit_handler_bus handleWs_catch_bus handleWs_event_bus)
  with assms Receive show ?thesis by blast
next
  case (Emit m p)
  with assms show ?thesis using dispatch_to_bus [of E "(m, p)" "bus w" w]
    by (auto simp: dispatchEvent_def)
qed

lemma step_unobserved: "unobserved h w \<Longrightarrow> unobserved h (step E a w)"
  unfolding unobserved_def
  using step_bus [of h E a w] step_phase [of w h E a] step_options [of E a w h]
  by auto

lemma run_unobserved: "unobserved h w \<Longrightarrow> unobserved h (run E acts w)"
  unfolding run_def
  by (induction acts arbitrary: w) (simp_all add: step_unobserved)

text \<open>An emission leaves a channel without listener as it is.\<close>

lemma emit_unobserved:
  "unobserved h w \<Longrightarrow> chans (step E (Emit m p) w) h = chans w h"
  by (simp add: unobserved_def dispatchEvent_unregistered)

subsection \<open>What the listener writes\<close>




lemma show_json_price:
  "show_json (JObject [(''jsonrpc'', JString ''2.0''), (''result'', price_42), (''id'', JString ''sub-1'')])
     = ''{'' @ [CHR 0x22] @ ''jsonrpc'' @ [CHR 0x22] @ '':'' @ [CHR 0x22] @ ''2.0'' @ [CHR 0x22] @ '',''
        @ [CHR 0x22] @ ''result'' @ [CHR 0x22] @ '':{'' @ [CHR 0x22] @ ''price'' @ [CHR 0x22] @ '':42},''
        @ [CHR 0x22] @ ''id'' @ [CHR 0x22] @ '':'' @ [CHR 0x22] @ ''sub-1'' @ [CHR 0x22] @ ''}''"
  by (simp add: price_42_def)


subsection \<open>The answer to a batch\<close>



subsection \<open>Channels that are no longer, or never, observed\<close>

lemma run_options: "options (chans (run E acts w) h) = options (chans w h)"
  unfolding run_def
  by (induction acts arbitrary: w) (simp_all add: step_options)

lemma run_disabled_unregistered:
  assumes "h \<notin> set (bus w0)" and "disableInternalMethods (options (chans (run E acts w0) h))"
  shows "h \<notin> set (bus (run E acts w0))"
proof -
  from assms have "unobserved h w0" by (simp add: unobserved_def run_options)
  then have "unobserved h (run E acts w0)" by (rule run_unobserved)
  then show ?thesis by (simp add: unobserved_def)
qed

lemma unobserved_forever:
  assumes "unobserved h w"
  shows "chans (step E (Emit m p) (run E acts w)) h = chans (run E acts w) h"
  using run_unobserved [OF assms] by (rule emit_unobserved)

text \<open>
  C8. A channel whose options set \<^verbatim>\<open>disableInternalMethods\<close> and which has no
  observer on the bus (as before its handler is called) never has one, whatever
  happens, and no emission hands a frame to \<^verbatim>\<open>send\<close> of that channel.
\<close>

theorem disabled_channel_never_observed:
  assumes "disableInternalMethods (options (chans w h))" and "h \<notin> set (bus w)"
  shows "h \<notin> set (bus (run E acts w)) \<and>
         writes (socket (chans (step E (Emit m p) (run E acts w)) h))
           = writes (socket (chans (run E acts w) h))"
proof -
  from assms have u: "unobserved h w" by (simp add: unobserved_def)
  then have "unobserved h (run E acts w)" by (rule run_unobserved)
  then have "h \<notin> set (bus (run E acts w))" by (simp add: unobserved_def)
  moreover have "chans (step E (Emit m p) (run E acts w)) h = chans (run E acts w) h"
    using u by (rule unobserved_forever)
  ultimately show ?thesis by simp
qed

theorem disabled_channel_never_observed_witness:
  "disableInternalMethods (options (chans (example_world [] (example_channel False True Idle)) 0)) \<and>
   0 \<notin> set (bus (example_world [] (example_channel False True Idle))) \<and>
   0 \<notin> set (bus (run example_server [Connect 0] (example_world [] (example_channel False True Idle)))) \<and>
   writes (socket (chans (step example_server (Emit ''priceUpdate'' price_42)
                            (run example_server [Connect 0]
                               (example_world [] (example_channel False True Idle)))) 0))
     = []"
proof -
  have a: "disableInternalMethods (options (chans (example_world [] (example_channel False True Idle)) 0))"
    by (simp add: example_world_def example_channel_def)
  have b: "0 \<notin> set (bus (example_world [] (example_channel False True Idle)))"
    by (simp add: example_world_def)
  have c: "writes (socket (chans (run example_server [Connect 0]
                               (example_world [] (example_channel False True Idle))) 0)) = []"
    by (simp add: run_def handleWs_connect_def example_world_def example_channel_def
        example_socket_def)
  from a b c disabled_channel_never_observed [OF a b, of example_server "[Connect 0]"
      "''priceUpdate''" price_42]
  show ?thesis by simp
qed

subsection \<open>Emissions in flight\<close>

lemma set_remove_nth: "set (remove_nth k xs) \<subseteq> set xs"
  unfolding remove_nth_def using set_take_subset [of k xs] set_drop_subset [of "Suc k" xs] by auto

lemma list_all_remove_nth: "list_all P xs \<Longrightarrow> list_all P (remove_nth k xs)"
  using set_remove_nth [of k xs] by (auto simp: list_all_iff)

lemma list_all_update: "list_all P xs \<Longrightarrow> P x \<Longrightarrow> list_all P (xs[k := x])"
  using set_update_subset_insert [of xs k x] by (auto simp: list_all_iff)

lemma listener_callbacks_channel:
  "x \<in> set (listener_callbacks E w n m p h') \<Longrightarrow> fst (snd x) = h'"
  by (auto simp: listener_callbacks_def split: option.splits)

lemma resume_dispatched: "dispatched (resume E k x s) = dispatched s"
proof -
  obtain n h' cb where x: "x = (n, h', cb)" by (cases x)
  show ?thesis unfolding x by (cases cb) (simp_all add: Let_def split_beta)
qed

lemma resume_unobserved:
  assumes "unobserved h (now s)"
  shows "unobserved h (now (resume E k x s))"
proof -
  obtain n h' cb where x: "x = (n, h', cb)" by (cases x)
  show ?thesis
  proof (cases cb)
    case (Creating v)
    with x assms show ?thesis
      by (auto simp: unobserved_def Let_def split_beta socket_send_def)
  next
    case (Sending raised)
    with x assms show ?thesis
      by (auto simp: unobserved_def removeEventListener_def)
  qed
qed

lemma resume_settled_before:
  assumes "settled_before N h s" and "k < length (pending s)"
  shows "settled_before N h (resume E k (pending s ! k) s)"
proof -
  obtain n h' cb where x: "pending s ! k = (n, h', cb)" by (cases "pending s ! k")
  from assms(2) have mem: "pending s ! k \<in> set (pending s)" by simp
  from assms(1) mem x have tag: "h' \<noteq> h \<or> n < N"
    by (auto simp: settled_before_def list_all_iff)
  have u: "unobserved h (now (resume E k (pending s ! k) s))"
    using assms(1) by (simp add: settled_before_def resume_unobserved)
  show ?thesis
  proof (cases cb)
    case (Creating v)
    with x assms(1) tag u show ?thesis
      unfolding settled_before_def
      by (auto simp: Let_def split_beta list_all_remove_nth list_all_update)
  next
    case (Sending raised)
    with x assms(1) u show ?thesis
      unfolding settled_before_def
      by (auto simp: list_all_remove_nth)
  qed
qed

lemma advance_settled_before:
  assumes "settled_before N h s" and "N \<le> dispatched s"
  shows "settled_before N h (advance E ev s) \<and> N \<le> dispatched (advance E ev s)"
proof (cases ev)
  case (Called h')
  with assms show ?thesis
    using step_unobserved [of h "now s" E "Connect h'"]
    by (simp add: settled_before_def del: step.simps)
next
  case (Read h' r)
  with assms show ?thesis
    using step_unobserved [of h "now s" E "Receive h' r"]
    by (simp add: settled_before_def del: step.simps)
next
  case (Dispatch m p)
  have "list_all (\<lambda>x. fst (snd x) \<noteq> h \<or> fst x < N)
          (concat (map (listener_callbacks E (now s) (dispatched s) m p) (bus (now s))))"
    using assms(1)
    by (auto simp: list_all_iff settled_before_def unobserved_def dest!: listener_callbacks_channel)
  with Dispatch assms show ?thesis by (simp add: settled_before_def)
next
  case (Settle k)
  with assms show ?thesis by (simp add: resume_settled_before resume_dispatched)
qed

lemma proceed_settled_before:
  "settled_before N h s \<Longrightarrow> N \<le> dispatched s \<Longrightarrow> settled_before N h (proceed E evs s)"
  unfolding proceed_def
proof (induction evs arbitrary: s)
  case Nil
  then show ?case by simp
next
  case (Cons ev evs)
  from advance_settled_before [OF Cons.prems, of E ev] show ?case
    by (simp add: Cons.IH)
qed

lemma advance_consistent: "consistent s \<Longrightarrow> consistent (advance E ev s)"
proof (cases ev)
  case (Called h)
  then show "consistent s \<Longrightarrow> ?thesis" by (simp add: consistent_def del: step.simps)
next
  case (Read h r)
  then show "consistent s \<Longrightarrow> ?thesis" by (simp add: consistent_def del: step.simps)
next
  case (Dispatch m p)
  assume c: "consistent s"
  have "list_all (\<lambda>x. fst x < Suc (dispatched s))
          (concat (map (listener_callbacks E (now s) (dispatched s) m p) (bus (now s))))"
    by (auto simp: list_all_iff listener_callbacks_def split: option.splits)
  with c Dispatch show ?thesis
    by (auto simp: consistent_def list_all_iff)
next
  case (Settle k)
  assume c: "consistent s"
  show ?thesis
  proof (cases "k < length (pending s)")
    case False
    with c Settle show ?thesis by simp
  next
    case True
    obtain n h cb where x: "pending s ! k = (n, h, cb)" by (cases "pending s ! k")
    from True have "pending s ! k \<in> set (pending s)" by simp
    with c x have n: "n < dispatched s" by (auto simp: consistent_def list_all_iff)
    show ?thesis
    proof (cases cb)
      case (Creating v)
      with c n x True Settle show ?thesis
        by (auto simp: consistent_def Let_def split_beta list_all_remove_nth list_all_update)
    next
      case (Sending raised)
      with c x True Settle show ?thesis
        by (auto simp: consistent_def list_all_remove_nth)
    qed
  qed
qed

text \<open>Every state reached from a consistent one is consistent.\<close>

lemma proceed_consistent: "consistent s \<Longrightarrow> consistent (proceed E evs s)"
  unfolding proceed_def
  by (induction evs arbitrary: s) (simp_all add: advance_consistent del: advance.simps)

lemma resume_send_raises:
  assumes "truthy (fst (createResponseObject E v (methods (chans (now s) h))
                          (options (chans (now s) h)) (methodsAndIdsStore (chans (now s) h))))"
    and "send_raises (socket (chans (now s) h)) (length (writes (socket (chans (now s) h))))"
    and "k < length (pending s)"
  shows "pending (resume E k (n, h, Creating v) s) ! k = (n, h, Sending True)"
  using assms by (simp add: Let_def split_beta socket_send_def)

lemma consistent_settled_before:
  assumes "consistent s" and "unobserved h (now s)"
  shows "settled_before (dispatched s) h s"
  using assms by (auto simp: consistent_def settled_before_def list_all_iff)

text \<open>
  C4, as the code has it. Take a state in which every emission named by a suspended
  callback or a logged push has been dispatched. Let the handler of the channel \<open>h\<close>
  have been called and let a callback of its observer be suspended at a
  \<^verbatim>\<open>socket.send\<close> that raises. When
  that callback resumes, the observer of \<open>h\<close> is off the bus; every promise the
  observer's callbacks return is fulfilled, so nothing is raised into the emitting code;
  and from then on, whatever happens and in whatever order, the observer stays off the
  bus and every callback that is suspended for \<open>h\<close> or calls \<^verbatim>\<open>send\<close> on \<open>h\<close>
  belongs to an emission dispatched before the observer was taken off.
\<close>

theorem failed_push_deregisters:
  assumes "consistent s" and "phase (chans (now s) h) \<noteq> Idle"
    and "k < length (pending s)" and "pending s ! k = (n, h, Sending True)"
  shows "h \<notin> set (bus (now (advance E (Settle k) s))) \<and>
         (\<forall>w' m p r. r \<in> set (fst (emitListener E h (m, p) w')) \<longrightarrow> r = Inr ()) \<and>
         (\<forall>evs.
            h \<notin> set (bus (now (proceed E evs (advance E (Settle k) s)))) \<and>
            list_all (\<lambda>x. fst (snd x) \<noteq> h \<or> fst x < dispatched s)
              (pending (proceed E evs (advance E (Settle k) s))) \<and>
            list_all (\<lambda>x. snd x \<noteq> h \<or> fst x < dispatched s)
              (pushes (proceed E evs (advance E (Settle k) s))))"
proof -
  let ?s1 = "advance E (Settle k) s"
  have s1: "?s1 = s\<lparr>now := (now s)\<lparr>bus := removeEventListener (bus (now s)) h\<rparr>,
                      pending := remove_nth k (pending s)\<rparr>"
    using assms(3,4) by simp
  have gone: "h \<notin> set (bus (now ?s1))"
    unfolding s1 by (simp add: removeEventListener_def)
  have u: "unobserved h (now ?s1)"
    using assms(2) unfolding s1 by (simp add: unobserved_def removeEventListener_def)
  have c: "consistent ?s1"
    using assms(1) unfolding s1 by (simp add: consistent_def list_all_remove_nth)
  have d: "dispatched ?s1 = dispatched s" unfolding s1 by simp
  have "settled_before (dispatched s) h ?s1"
    using consistent_settled_before [OF c u] by (simp only: d)
  then have later: "settled_before (dispatched s) h (proceed E evs ?s1)" for evs
    by (rule proceed_settled_before) (simp only: d)
  have "h \<notin> set (bus (now (proceed E evs ?s1))) \<and>
        list_all (\<lambda>x. fst (snd x) \<noteq> h \<or> fst x < dispatched s) (pending (proceed E evs ?s1)) \<and>
        list_all (\<lambda>x. snd x \<noteq> h \<or> fst x < dispatched s) (pushes (proceed E evs ?s1))" for evs
    using later [of evs] by (simp add: settled_before_def unobserved_def)
  with gone show ?thesis
    by (auto dest: emitListener_fulfil)
qed

lemma example_dispatch_settle:
  "pending (proceed example_server [Dispatch ''priceUpdate'' price_42, Settle 0] example_system)
     = [(0, 0, Sending True)]"
  "dispatched (proceed example_server [Dispatch ''priceUpdate'' price_42, Settle 0] example_system) = 1"
  "pushes (proceed example_server [Dispatch ''priceUpdate'' price_42, Settle 0] example_system) = [(0, 0)]"
  "phase (chans (now (proceed example_server [Dispatch ''priceUpdate'' price_42, Settle 0]
                        example_system)) 0) = Running"
  by (simp_all add: proceed_def example_system_def listener_callbacks_def Let_def socket_send_def
      example_world_def example_channel_def example_socket_def example_server_def
      emission_request_def price_42_def)

theorem failed_push_deregisters_witness:
  "consistent (proceed example_server [Dispatch ''priceUpdate'' price_42, Settle 0] example_system) \<and>
   phase (chans (now (proceed example_server [Dispatch ''priceUpdate'' price_42, Settle 0]
                        example_system)) 0) \<noteq> Idle \<and>
   pending (proceed example_server [Dispatch ''priceUpdate'' price_42, Settle 0] example_system) ! 0
     = (0, 0, Sending True) \<and>
   0 \<notin> set (bus (now (advance example_server (Settle 0)
                        (proceed example_server [Dispatch ''priceUpdate'' price_42, Settle 0]
                           example_system)))) \<and>
   list_all (\<lambda>x. snd x \<noteq> 0 \<or> fst x < 1)
     (pushes (proceed example_server [Dispatch ''priceUpdate'' price_42, Settle 0, Settle 1]
               (advance example_server (Settle 0)
                  (proceed example_server [Dispatch ''priceUpdate'' price_42, Settle 0]
                     example_system))))"
proof -
  let ?s = "proceed example_server [Dispatch ''priceUpdate'' price_42, Settle 0] example_system"
  have a: "consistent ?s"
    by (simp add: consistent_def example_dispatch_settle)
  have b: "phase (chans (now ?s) 0) \<noteq> Idle"
    by (simp add: example_dispatch_settle)
  have c: "0 < length (pending ?s)"
    by (simp add: example_dispatch_settle)
  have d: "pending ?s ! 0 = (0, 0, Sending True)"
    by (simp add: example_dispatch_settle)
  from failed_push_deregisters [OF a b c d, of example_server] a b d
  show ?thesis
    by (simp add: example_dispatch_settle(2))
qed

text \<open>
  C4 as it was stated fails for two emissions dispatched one after the other to a dead
  channel: the first send raises and the observer is taken off the bus, and then the
  callback of the second emission, already in flight, calls \<^verbatim>\<open>send\<close> on that
  channel.
\<close>

theorem in_flight_emission_counterexample:
  "bus (now (proceed example_server
               [Dispatch ''priceUpdate'' price_42, Dispatch ''priceUpdate'' price_42,
                Settle 0, Settle 0] example_system)) = [] \<and>
   map snd (writes (socket (chans (now (proceed example_server
               [Dispatch ''priceUpdate'' price_42, Dispatch ''priceUpdate'' price_42,
                Settle 0, Settle 0] example_system)) 0))) = [False] \<and>
   map snd (writes (socket (chans (now (proceed example_server
               [Dispatch ''priceUpdate'' price_42, Dispatch ''priceUpdate'' price_42,
                Settle 0, Settle 0, Settle 0] example_system)) 0))) = [False, False] \<and>
   pushes (proceed example_server
               [Dispatch ''priceUpdate'' price_42, Dispatch ''priceUpdate'' price_42,
                Settle 0, Settle 0, Settle 0] example_system) = [(0, 0), (1, 0)]"
  by (simp add: proceed_def example_system_def listener_callbacks_def Let_def socket_send_def
      remove_nth_def removeEventListener_def
      example_world_def example_channel_def example_socket_def example_server_def
      emission_request_def price_42_def)

text \<open>
  C5. Let the channel \<open>h\<close> have had no observer on the bus before its handler was
  called, and let the handler be in its loop. On a close frame the observer of \<open>h\<close> is
  off the bus while the loop is still running. On a read failure the observer is off
  the bus, the handler has returned, \<^verbatim>\<open>close(1000)\<close> was called exactly if the socket
  was not closed, and the handler's promise is fulfilled whatever \<^verbatim>\<open>close\<close> did.
  After either, whatever happens next, no emission hands a frame to \<^verbatim>\<open>send\<close> of
  \<open>h\<close>.
\<close>

theorem teardown_deregisters:
  assumes "h \<notin> set (bus w0)" and "phase (chans (run E acts w0) h) = Running"
  shows "(h \<notin> set (bus (step E (Receive h (Event (Close code reason))) (run E acts w0))) \<and>
          phase (chans (step E (Receive h (Event (Close code reason))) (run E acts w0)) h) = Running \<and>
          (\<forall>acts' m p.
             writes (socket (chans (step E (Emit m p)
                       (run E acts' (step E (Receive h (Event (Close code reason))) (run E acts w0)))) h))
             = writes (socket (chans
                       (run E acts' (step E (Receive h (Event (Close code reason))) (run E acts w0))) h)))) \<and>
         (h \<notin> set (bus (step E (Receive h (Fail e)) (run E acts w0))) \<and>
          phase (chans (step E (Receive h (Fail e)) (run E acts w0)) h) = Exited \<and>
          closes (socket (chans (step E (Receive h (Fail e)) (run E acts w0)) h))
            = closes (socket (chans (run E acts w0) h))
              @ (if isClosed (socket (chans (run E acts w0) h)) then [] else [1000]) \<and>
          fst (handleWs_catch h (run E acts w0)) = Inr () \<and>
          (\<forall>acts' m p.
             writes (socket (chans (step E (Emit m p)
                       (run E acts' (step E (Receive h (Fail e)) (run E acts w0)))) h))
             = writes (socket (chans
                       (run E acts' (step E (Receive h (Fail e)) (run E acts w0))) h))))"
proof -
  let ?w = "run E acts w0"
  let ?wc = "step E (Receive h (Event (Close code reason))) ?w"
  let ?wf = "step E (Receive h (Fail e)) ?w"
  have dis: "disableInternalMethods (options (chans ?w h)) \<Longrightarrow> h \<notin> set (bus ?w)"
    using assms(1) by (rule run_disabled_unregistered)
  have c1: "h \<notin> set (bus ?wc)"
    using assms(2) dis by (auto simp: handleWs_event_def Let_def removeEventListener_def)
  have c2: "phase (chans ?wc h) = Running"
    using assms(2) by (simp add: handleWs_event_def Let_def)
  from c1 c2 have uc: "unobserved h ?wc" by (simp add: unobserved_def)
  have f1: "h \<notin> set (bus ?wf)"
    using assms(2) dis
    by (auto simp: handleWs_catch_def exit_handler_def Let_def split_beta removeEventListener_def)
  have f2: "phase (chans ?wf h) = Exited"
    using assms(2) by (simp add: exit_handler_def)
  have f3: "closes (socket (chans ?wf h))
            = closes (socket (chans ?w h)) @ (if isClosed (socket (chans ?w h)) then [] else [1000])"
    using assms(2)
    by (simp add: handleWs_catch_def exit_handler_def Let_def split_beta socket_close_def)
  from f1 f2 have uf: "unobserved h ?wf" by (simp add: unobserved_def)
  have lc: "writes (socket (chans (step E (Emit m p) (run E acts' ?wc)) h))
             = writes (socket (chans (run E acts' ?wc) h))" for acts' m p
    using unobserved_forever [OF uc, of E m p acts'] by simp
  have lf: "writes (socket (chans (step E (Emit m p) (run E acts' ?wf)) h))
             = writes (socket (chans (run E acts' ?wf) h))" for acts' m p
    using unobserved_forever [OF uf, of E m p acts'] by simp
  from c1 c2 lc f1 f2 f3 lf handleWs_catch_fulfils [of h ?w] show ?thesis
    by blast
qed

theorem teardown_deregisters_witness:
  "0 \<notin> set (bus (example_world [] (example_channel True False Idle))) \<and>
   phase (chans (run example_server [Connect 0] (example_world [] (example_channel True False Idle))) 0)
     = Running \<and>
   0 \<notin> set (bus (step example_server (Receive 0 (Event (Close 1001 ''going away'')))
                    (run example_server [Connect 0]
                       (example_world [] (example_channel True False Idle))))) \<and>
   closes (socket (chans (step example_server (Receive 0 (Fail (NativeError ''connection reset'')))
                            (run example_server [Connect 0]
                               (example_world [] (example_channel True False Idle)))) 0))
     = [1000]"
proof -
  have a: "0 \<notin> set (bus (example_world [] (example_channel True False Idle)))"
    by (simp add: example_world_def)
  have b: "phase (chans (run example_server [Connect 0]
                           (example_world [] (example_channel True False Idle))) 0) = Running"
    by (simp add: run_def handleWs_connect_def example_world_def example_channel_def)
  have c: "closes (socket (chans (run example_server [Connect 0]
                           (example_world [] (example_channel True False Idle))) 0)) = []"
       "\<not> isClosed (socket (chans (run example_server [Connect 0]
                           (example_world [] (example_channel True False Idle))) 0))"
    by (simp_all add: run_def handleWs_connect_def example_world_def example_channel_def
        example_socket_def)
  from a b c teardown_deregisters [OF a b, of 1001 "''going away''" "NativeError ''connection reset''"]
  show ?thesis by simp
qed

end
